theory Spec2Isabelle
  imports Main
begin

section \<open>The relational store\<close>

text \<open>
  The service of \<^verbatim>\<open>src/server/index.js\<close> keeps two tables.  A row is a record whose
  fields are the columns the SQL statements of the source name; the text columns hold
  strings, the key columns natural numbers.
\<close>

record customer =
  c_id :: nat
  first_name :: string
  last_name :: string
  phone_number :: string

record address =
  a_id :: nat
  customer_id :: nat
  address_details :: string
  city :: string
  state :: string
  pin_code :: string

record tables =
  customers :: "customer list"
  addresses :: "address list"

text \<open>
  The database behind the pool \<^verbatim>\<open>db\<close>: the committed tables, the two id sequences
  (a sequence is not rolled back with a transaction), whether the schema declares
  \<^verbatim>\<open>addresses.customer_id\<close> as an enforced foreign key (the schema is not part of the
  sources, so this is a parameter of the store), the number of pool clients that are
  checked out, and the uncommitted changes that requests have abandoned: the working copy
  of every transaction that was neither committed nor rolled back when its client went
  back to the pool.
\<close>

record database =
  tabs :: tables
  customers_id_seq :: nat
  addresses_id_seq :: nat
  fk_enforced :: bool
  leased :: int
  abandoned :: "tables list"

text \<open>
  What one request handler sees while it runs: the database, the working copy of the tables
  inside an open transaction (\<open>None\<close> outside of one), and the number of calls made so far
  to the pool or the client.
\<close>

record conn =
  pool :: database
  work :: "tables option"
  issued :: nat

section \<open>Requests and replies\<close>

text \<open>
  \<^verbatim>\<open>req.body\<close> and \<^verbatim>\<open>req.query\<close> are objects with string fields; a field that is absent is
  \<^verbatim>\<open>undefined\<close>.  Row ids in a request (\<^verbatim>\<open>req.params.id\<close>, \<^verbatim>\<open>customer_id\<close>) are taken as
  numbers.
\<close>

type_synonym fields = "string \<rightharpoonup> string"

record customer_out =
  o_id :: nat
  o_first_name :: string
  o_last_name :: string
  o_phone_number :: string
  o_address_count :: "nat option"
  o_addresses :: "address list"

datatype payload =
    Error string
  | ErrorField string string
  | ErrMessage
  | ErrMessageField string
  | Message string
  | Created string nat
  | AddressRow address
  | AddressAdded string nat
  | Data "customer_out list"
  | DataAddresses "address list"
  | DataCustomer customer_out
  | Count nat

datatype reply = Reply nat payload

text \<open>
  A step of a handler either yields a value or throws.  A handler that ends in \<open>Throw\<close>
  has rejected without sending a reply.
\<close>

datatype 'a res = Val 'a | Throw

type_synonym 'a act = "conn \<Rightarrow> 'a res \<times> conn"

text \<open>
  The store is outside the service: any call to it may fail.  \<open>f k\<close> tells whether the
  \<open>k\<close>-th call of the request (counted from 0) fails.
\<close>

type_synonym faults = "nat \<Rightarrow> bool"

definition await :: "'a act \<Rightarrow> ('a \<Rightarrow> 'b act) \<Rightarrow> 'b act" where
  "await m k c = (case m c of (Val v, c') \<Rightarrow> k v c' | (Throw, c') \<Rightarrow> (Throw, c'))"

definition respond :: "nat \<Rightarrow> payload \<Rightarrow> reply act" where
  "respond s b c = (Val (Reply s b), c)"

definition skip :: "unit act" where
  "skip c = (Val (), c)"

definition try_catch :: "'a act \<Rightarrow> 'a act \<Rightarrow> 'a act" where
  "try_catch body handler c =
     (case body c of (Val v, c1) \<Rightarrow> (Val v, c1) | (Throw, c1) \<Rightarrow> handler c1)"

definition try_catch_finally :: "'a act \<Rightarrow> 'a act \<Rightarrow> (conn \<Rightarrow> conn) \<Rightarrow> 'a act" where
  "try_catch_finally body handler final c =
     (case try_catch body handler c of (r, c') \<Rightarrow> (r, final c'))"

text \<open>
  Modelled from the spec: the pool of \<^verbatim>\<open>./db\<close> is not among the sources; it hands out
  dedicated connections and takes them back, and giving a client back does not end a
  transaction.  A transaction that is still open when its client is given up stays open on
  that client.  Its changes are not committed, and they are not undone either: a later request that is
  handed the client continues the transaction and commits them with its own.  A working
  copy that differs from the committed tables is therefore recorded as abandoned; an open
  transaction that holds no change is of no consequence for the store.
\<close>

definition left_open :: "tables \<Rightarrow> database \<Rightarrow> database" where
  "left_open t d = (if t = tabs d then d else d\<lparr>abandoned := abandoned d @ [t]\<rparr>)"

definition give_up :: "conn \<Rightarrow> conn" where
  "give_up c =
     (case work c of None \<Rightarrow> c
      | Some t \<Rightarrow> c\<lparr>pool := left_open t (pool c), work := None\<rparr>)"

text \<open>
  A handler is served on a client without an open transaction.  Afterwards the database is
  the one behind the pool, with whatever the handler has left open.
\<close>

definition run :: "'a act \<Rightarrow> database \<Rightarrow> 'a res \<times> database" where
  "run m d =
     (case m \<lparr>pool = d, work = None, issued = 0\<rparr> of (r, c) \<Rightarrow> (r, pool (give_up c)))"

section \<open>Pool and client\<close>

text \<open>
  Modelled from the spec: the module \<^verbatim>\<open>./db\<close> (\<^verbatim>\<open>db.getClient\<close>, \<^verbatim>\<open>db.query\<close>, and the
  client's \<^verbatim>\<open>query\<close> and \<^verbatim>\<open>release\<close>) is not among the sources.  After the spec,
  \<^verbatim>\<open>getClient\<close> acquires a dedicated connection from a pool, \<^verbatim>\<open>release\<close> gives it back,
  the statements of a client between BEGIN and COMMIT or ROLLBACK form one atomic
  transaction, and \<^verbatim>\<open>db.query\<close> runs a single statement outside of any transaction.
\<close>

definition getClient :: "faults \<Rightarrow> unit act" where
  "getClient f c =
     (let c1 = c\<lparr>issued := Suc (issued c)\<rparr> in
      if f (issued c) then (Throw, c1)
      else (Val (), c1\<lparr>pool := (pool c1)\<lparr>leased := leased (pool c1) + 1\<rparr>\<rparr>))"

definition release :: "conn \<Rightarrow> conn" where
  "release c =
     (let c1 = give_up c in c1\<lparr>pool := (pool c1)\<lparr>leased := leased (pool c1) - 1\<rparr>\<rparr>)"

definition query :: "faults \<Rightarrow> 'a act \<Rightarrow> 'a act" where
  "query f stmt c =
     (let c1 = c\<lparr>issued := Suc (issued c)\<rparr> in
      if f (issued c) then (Throw, c1) else stmt c1)"

definition cur :: "conn \<Rightarrow> tables" where
  "cur c = (case work c of Some t \<Rightarrow> t | None \<Rightarrow> tabs (pool c))"

definition put_cur :: "tables \<Rightarrow> conn \<Rightarrow> conn" where
  "put_cur t c =
     (case work c of Some _ \<Rightarrow> c\<lparr>work := Some t\<rparr>
      | None \<Rightarrow> c\<lparr>pool := (pool c)\<lparr>tabs := t\<rparr>\<rparr>)"

subsection \<open>The SQL statements of the source\<close>

definition sql_BEGIN :: "unit act" where
  "sql_BEGIN c = (Val (), c\<lparr>work := Some (cur c)\<rparr>)"

definition sql_COMMIT :: "unit act" where
  "sql_COMMIT c =
     (Val (), case work c of Some t \<Rightarrow> c\<lparr>pool := (pool c)\<lparr>tabs := t\<rparr>, work := None\<rparr>
              | None \<Rightarrow> c)"

definition sql_ROLLBACK :: "unit act" where
  "sql_ROLLBACK c = (Val (), c\<lparr>work := None\<rparr>)"

text \<open>\<^verbatim>\<open>SELECT id FROM customers WHERE first_name = $1 AND last_name = $2 AND phone_number = $3\<close>;
  the value is \<^verbatim>\<open>rowCount\<close>.\<close>

definition select_duplicate :: "string \<Rightarrow> string \<Rightarrow> string \<Rightarrow> nat act" where
  "select_duplicate fn ln ph c =
     (Val (length (filter (\<lambda>r. first_name r = fn \<and> last_name r = ln \<and> phone_number r = ph)
                     (customers (cur c)))), c)"

text \<open>\<^verbatim>\<open>INSERT INTO customers (first_name, last_name, phone_number) VALUES ($1, $2, $3) RETURNING id\<close>\<close>

definition insert_customer :: "string \<Rightarrow> string \<Rightarrow> string \<Rightarrow> nat act" where
  "insert_customer fn ln ph c =
     (let i = customers_id_seq (pool c);
          c1 = c\<lparr>pool := (pool c)\<lparr>customers_id_seq := Suc i\<rparr>\<rparr>;
          t = cur c1;
          row = \<lparr>c_id = i, first_name = fn, last_name = ln, phone_number = ph\<rparr>
      in (Val i, put_cur (t\<lparr>customers := customers t @ [row]\<rparr>) c1))"

text \<open>\<^verbatim>\<open>INSERT INTO addresses (customer_id, address_details, city, state, pin_code)
  VALUES ($1, $2, $3, $4, $5) RETURNING *\<close>; with an enforced foreign key the statement
  fails when no customer has the id.\<close>

definition insert_address :: "nat \<Rightarrow> string \<Rightarrow> string \<Rightarrow> string \<Rightarrow> string \<Rightarrow> address act" where
  "insert_address cid ad ci st pin c =
     (let i = addresses_id_seq (pool c);
          c1 = c\<lparr>pool := (pool c)\<lparr>addresses_id_seq := Suc i\<rparr>\<rparr>;
          t = cur c1;
          row = \<lparr>a_id = i, customer_id = cid, address_details = ad, city = ci,
                 state = st, pin_code = pin\<rparr>
      in if fk_enforced (pool c) \<and> cid \<notin> set (map c_id (customers t)) then (Throw, c1)
         else (Val row, put_cur (t\<lparr>addresses := addresses t @ [row]\<rparr>) c1))"

section \<open>Validation\<close>

text \<open>The truth value of a field: an absent field and the empty string are falsy.
  \<open>falsy v\<close> is \<^verbatim>\<open>!v\<close>.\<close>

definition truthy :: "string option \<Rightarrow> bool" where
  "truthy v = (case v of None \<Rightarrow> False | Some s \<Rightarrow> s \<noteq> [])"

definition falsy :: "string option \<Rightarrow> bool" where
  "falsy v = (case v of None \<Rightarrow> True | Some s \<Rightarrow> s = [])"

text \<open>\<^verbatim>\<open>String(v)\<close>, as \<^verbatim>\<open>RegExp.prototype.test\<close> applies it to its argument.\<close>

definition js_string :: "string option \<Rightarrow> string" where
  "js_string v = (case v of None \<Rightarrow> ''undefined'' | Some s \<Rightarrow> s)"

definition is_digit :: "char \<Rightarrow> bool" where
  "is_digit ch = (ch \<in> set ''0123456789'')"

text \<open>\<^verbatim>\<open>/^\d{n}$/.test(v)\<close>\<close>

definition test_digits :: "nat \<Rightarrow> string option \<Rightarrow> bool" where
  "test_digits n v = (length (js_string v) = n \<and> list_all is_digit (js_string v))"

text \<open>The value bound to a statement parameter; every use is behind a truthiness check.\<close>

definition param :: "string option \<Rightarrow> string" where
  "param v = (case v of None \<Rightarrow> [] | Some s \<Rightarrow> s)"

section \<open>POST /api/customers\<close>

definition post_customers :: "faults \<Rightarrow> fields \<Rightarrow> reply act" where
  "post_customers f body =
    (if falsy (body ''first_name'') \<or> falsy (body ''last_name'')
        \<or> falsy (body ''phone_number'') \<or> falsy (body ''address_details'')
        \<or> falsy (body ''city'') \<or> falsy (body ''state'')
        \<or> falsy (body ''pin_code'')
     then respond 400 (ErrorField ''All fields are required.'' ''general'')
     else if \<not> test_digits 10 (body ''phone_number'')
     then respond 400 (ErrorField ''Phone number must be 10 digits.'' ''phone_number'')
     else if \<not> test_digits 6 (body ''pin_code'')
     then respond 400 (ErrorField ''Pin code must be 6 digits.'' ''pin_code'')
     else
       await (getClient f) (\<lambda>_.
       try_catch_finally
         (await (query f sql_BEGIN) (\<lambda>_.
          await (query f (select_duplicate (param (body ''first_name''))
                   (param (body ''last_name'')) (param (body ''phone_number'')))) (\<lambda>rowCount.
          if rowCount > 0 then
            await (query f sql_ROLLBACK) (\<lambda>_.
            respond 409
              (ErrorField ''Customer with this name and phone number already exists.''
                 ''phone_number''))
          else
            await (query f (insert_customer (param (body ''first_name''))
                     (param (body ''last_name'')) (param (body ''phone_number'')))) (\<lambda>customerId.
            await (query f (insert_address customerId (param (body ''address_details''))
                     (param (body ''city'')) (param (body ''state''))
                     (param (body ''pin_code'')))) (\<lambda>_.
            await (query f sql_COMMIT) (\<lambda>_.
            respond 201 (Created ''Customer and address created successfully.'' customerId)))))))
         (await (query f sql_ROLLBACK) (\<lambda>_. respond 500 (ErrMessageField ''general'')))
         release))"

section \<open>PUT /api/customers/:id\<close>

text \<open>\<^verbatim>\<open>UPDATE customers SET first_name = $1, last_name = $2, phone_number = $3 WHERE id = $4
  RETURNING *\<close>; the value is \<^verbatim>\<open>rowCount\<close>.\<close>

definition update_customers :: "string \<Rightarrow> string \<Rightarrow> string \<Rightarrow> nat \<Rightarrow> nat act" where
  "update_customers fn ln ph i c =
     (let t = cur c in
      (Val (length (filter (\<lambda>r. c_id r = i) (customers t))),
       put_cur (t\<lparr>customers :=
                  map (\<lambda>r. if c_id r = i
                            then r\<lparr>first_name := fn, last_name := ln, phone_number := ph\<rparr>
                            else r) (customers t)\<rparr>) c))"

definition put_customer :: "faults \<Rightarrow> nat \<Rightarrow> fields \<Rightarrow> reply act" where
  "put_customer f customerId body =
    (if falsy (body ''first_name'') \<or> falsy (body ''last_name'')
        \<or> falsy (body ''phone_number'')
     then respond 400 (Error ''First name, last name and phone number are required.'')
     else if \<not> test_digits 10 (body ''phone_number'')
     then respond 400 (Error ''Phone number must be 10 digits.'')
     else
       await (getClient f) (\<lambda>_.
       try_catch_finally
         (await (query f sql_BEGIN) (\<lambda>_.
          await (query f (update_customers (param (body ''first_name''))
                   (param (body ''last_name'')) (param (body ''phone_number''))
                   customerId)) (\<lambda>rowCount.
          if rowCount = 0 then
            await (query f sql_ROLLBACK) (\<lambda>_.
            respond 404 (Error ''Customer not found.''))
          else
            await (if truthy (body ''address_details'') \<and> truthy (body ''city'')
                      \<and> truthy (body ''state'') \<and> truthy (body ''pin_code'')
                   then await (query f (insert_address customerId
                                 (param (body ''address_details'')) (param (body ''city''))
                                 (param (body ''state'')) (param (body ''pin_code''))))
                          (\<lambda>_. skip)
                   else skip) (\<lambda>_.
            await (query f sql_COMMIT) (\<lambda>_.
            respond 200 (Message (if truthy (body ''address_details'')
                                  then ''Customer and address updated successfully.''
                                  else ''Customer updated successfully.'')))))))
         (await (query f sql_ROLLBACK) (\<lambda>_. respond 500 ErrMessage))
         release))"

section \<open>POST /api/addresses, PUT /api/addresses/:id, DELETE /api/addresses/:id\<close>

text \<open>\<^verbatim>\<open>!customer_id\<close> on a number: absent and 0 are falsy.\<close>

definition truthy_id :: "nat option \<Rightarrow> bool" where
  "truthy_id v = (case v of None \<Rightarrow> False | Some n \<Rightarrow> n \<noteq> 0)"

definition falsy_id :: "nat option \<Rightarrow> bool" where
  "falsy_id v = (case v of None \<Rightarrow> True | Some n \<Rightarrow> n = 0)"

definition param_id :: "nat option \<Rightarrow> nat" where
  "param_id v = (case v of None \<Rightarrow> 0 | Some n \<Rightarrow> n)"

definition post_addresses :: "faults \<Rightarrow> nat option \<Rightarrow> fields \<Rightarrow> reply act" where
  "post_addresses f customer_id_field body =
    (if falsy_id customer_id_field \<or> falsy (body ''address_details'')
        \<or> falsy (body ''city'') \<or> falsy (body ''state'')
        \<or> falsy (body ''pin_code'')
     then respond 400 (Error ''All fields required.'')
     else
       try_catch
         (await (query f (insert_address (param_id customer_id_field)
                   (param (body ''address_details'')) (param (body ''city''))
                   (param (body ''state'')) (param (body ''pin_code'')))) (\<lambda>row.
          respond 201 (AddressRow row)))
         (respond 500 ErrMessage))"

text \<open>\<^verbatim>\<open>UPDATE addresses SET address_details = $1, city = $2, state = $3, pin_code = $4
  WHERE id = $5 RETURNING *\<close>; the value is \<^verbatim>\<open>rows\<close>.\<close>

definition update_address :: "string \<Rightarrow> string \<Rightarrow> string \<Rightarrow> string \<Rightarrow> nat \<Rightarrow> address list act" where
  "update_address ad ci st pin i c =
     (let t = cur c;
          upd = (\<lambda>r. r\<lparr>address_details := ad, city := ci, state := st, pin_code := pin\<rparr>)
      in (Val (map upd (filter (\<lambda>r. a_id r = i) (addresses t))),
          put_cur (t\<lparr>addresses := map (\<lambda>r. if a_id r = i then upd r else r) (addresses t)\<rparr>) c))"

definition put_address :: "faults \<Rightarrow> nat \<Rightarrow> fields \<Rightarrow> reply act" where
  "put_address f addressId body =
    (if falsy (body ''address_details'') \<or> falsy (body ''city'')
        \<or> falsy (body ''state'') \<or> falsy (body ''pin_code'')
     then respond 400 (Error ''All fields required.'')
     else
       try_catch
         (await (query f (update_address (param (body ''address_details''))
                   (param (body ''city'')) (param (body ''state''))
                   (param (body ''pin_code'')) addressId)) (\<lambda>rows.
          case rows of
            [] \<Rightarrow> respond 404 (Error ''Address not found.'')
          | row # _ \<Rightarrow> respond 200 (AddressRow row)))
         (respond 500 ErrMessage))"

text \<open>\<^verbatim>\<open>DELETE FROM addresses WHERE id = $1 RETURNING *\<close>; the value is \<^verbatim>\<open>rowCount\<close>.\<close>

definition delete_address_row :: "nat \<Rightarrow> nat act" where
  "delete_address_row i c =
     (let t = cur c in
      (Val (length (filter (\<lambda>r. a_id r = i) (addresses t))),
       put_cur (t\<lparr>addresses := filter (\<lambda>r. a_id r \<noteq> i) (addresses t)\<rparr>) c))"

definition delete_address :: "faults \<Rightarrow> nat \<Rightarrow> reply act" where
  "delete_address f addressId =
     try_catch
       (await (query f (delete_address_row addressId)) (\<lambda>rowCount.
        if rowCount = 0 then respond 404 (Error ''Address not found.'')
        else respond 200 (Message ''Address deleted successfully.'')))
       (respond 500 ErrMessage)"

section \<open>DELETE /api/customers/:id\<close>

text \<open>\<^verbatim>\<open>DELETE FROM addresses WHERE customer_id = $1\<close>\<close>

definition delete_addresses_of :: "nat \<Rightarrow> unit act" where
  "delete_addresses_of i c =
     (let t = cur c in
      (Val (), put_cur (t\<lparr>addresses := filter (\<lambda>r. customer_id r \<noteq> i) (addresses t)\<rparr>) c))"

text \<open>\<^verbatim>\<open>DELETE FROM customers WHERE id = $1 RETURNING *\<close>; the value is \<^verbatim>\<open>rowCount\<close>.
  With an enforced foreign key the statement fails while an address row refers to the
  customer.\<close>

definition delete_customer_row :: "nat \<Rightarrow> nat act" where
  "delete_customer_row i c =
     (let t = cur c in
      if fk_enforced (pool c) \<and> i \<in> set (map c_id (customers t))
         \<and> i \<in> set (map customer_id (addresses t))
      then (Throw, c)
      else (Val (length (filter (\<lambda>r. c_id r = i) (customers t))),
            put_cur (t\<lparr>customers := filter (\<lambda>r. c_id r \<noteq> i) (customers t)\<rparr>) c))"

definition delete_customer :: "faults \<Rightarrow> nat \<Rightarrow> reply act" where
  "delete_customer f customerId =
     await (getClient f) (\<lambda>_.
     try_catch_finally
       (await (query f sql_BEGIN) (\<lambda>_.
        await (query f (delete_addresses_of customerId)) (\<lambda>_.
        await (query f (delete_customer_row customerId)) (\<lambda>rowCount.
        if rowCount = 0 then
          await (query f sql_ROLLBACK) (\<lambda>_.
          respond 404 (Error ''Customer not found.''))
        else
          await (query f sql_COMMIT) (\<lambda>_.
          respond 200 (Message ''Customer and all associated addresses deleted successfully.''))))))
       (await (query f sql_ROLLBACK) (\<lambda>_. respond 500 ErrMessage))
       release)"

section \<open>POST /api/customers/:id/addresses, GET /api/customers/:id/addresses\<close>

definition post_customer_addresses :: "faults \<Rightarrow> nat \<Rightarrow> fields \<Rightarrow> reply act" where
  "post_customer_addresses f customerId body =
    (if falsy (body ''address_details'') \<or> falsy (body ''city'')
        \<or> falsy (body ''state'') \<or> falsy (body ''pin_code'')
     then respond 400 (Error ''All address fields are required.'')
     else if \<not> test_digits 6 (body ''pin_code'')
     then respond 400 (Error ''Pin code must be 6 digits.'')
     else
       try_catch
         (await (query f (insert_address customerId
                   (param (body ''address_details'')) (param (body ''city''))
                   (param (body ''state'')) (param (body ''pin_code'')))) (\<lambda>row.
          respond 201 (AddressAdded ''Address added'' (a_id row))))
         (respond 500 ErrMessage))"

text \<open>\<^verbatim>\<open>SELECT * FROM addresses WHERE customer_id = $1\<close>\<close>

definition select_addresses_of :: "nat \<Rightarrow> address list act" where
  "select_addresses_of i c = (Val (filter (\<lambda>r. customer_id r = i) (addresses (cur c))), c)"

definition get_customer_addresses :: "faults \<Rightarrow> nat \<Rightarrow> reply act" where
  "get_customer_addresses f customerId =
     try_catch
       (await (query f (select_addresses_of customerId)) (\<lambda>rows.
        respond 200 (DataAddresses rows)))
       (respond 500 ErrMessage)"


section \<open>Reading customers\<close>

subsection \<open>ILIKE\<close>

text \<open>
  The pattern language of \<^verbatim>\<open>LIKE\<close>: \<^verbatim>\<open>%\<close> matches any run of characters, \<^verbatim>\<open>_\<close> one
  character, a backslash makes the next character literal.  \<^verbatim>\<open>ILIKE\<close> compares without
  regard to the case of the ASCII letters.  (A pattern that ends in a lone backslash is an
  error of the engine; the patterns of the source end in \<^verbatim>\<open>%\<close>.)
\<close>

fun like_match :: "string \<Rightarrow> string \<Rightarrow> bool" where
  "like_match [] s = (s = [])"
| "like_match (p # ps) [] = (p = CHR ''%'' \<and> like_match ps [])"
| "like_match (p # ps) (x # xs) =
     (if p = CHR ''%'' then like_match ps (x # xs) \<or> like_match (p # ps) xs
      else if p = CHR ''_'' then like_match ps xs
      else if p = CHR 0x5C then (case ps of [] \<Rightarrow> False | q # qs \<Rightarrow> q = x \<and> like_match qs xs)
      else p = x \<and> like_match ps xs)"

definition lower :: "char \<Rightarrow> char" where
  "lower ch = (if ch \<in> set ''ABCDEFGHIJKLMNOPQRSTUVWXYZ''
               then char_of (of_char ch + (32::nat)) else ch)"

definition ilike :: "string \<Rightarrow> string \<Rightarrow> bool" where
  "ilike s pat = like_match (map lower pat) (map lower s)"

text \<open>\<^verbatim>\<open>String.prototype.trim\<close> removes the white space and the line terminators at both
  ends of a string.  A character of a string is a code point below 256 here; of these the
  white space and line terminators of ECMAScript are U+0009 to U+000D, U+0020 and the
  no-break space U+00A0.\<close>

definition is_space :: "char \<Rightarrow> bool" where
  "is_space ch =
     (ch \<in> set [CHR 0x09, CHR 0x0A, CHR 0x0B, CHR 0x0C, CHR 0x0D, CHR 0x20, CHR 0xA0])"

definition trim :: "string \<Rightarrow> string" where
  "trim s = rev (dropWhile is_space (rev (dropWhile is_space s)))"

subsection \<open>Joins, groups and order\<close>

text \<open>\<^verbatim>\<open>FROM customers c LEFT JOIN addresses a ON c.id = a.customer_id\<close>: a customer
  without address gives one row whose \<^verbatim>\<open>a\<close> columns are all NULL.\<close>

definition left_join :: "tables \<Rightarrow> (customer \<times> address option) list" where
  "left_join t =
     concat (map (\<lambda>c. case filter (\<lambda>a. customer_id a = c_id c) (addresses t) of
                         [] \<Rightarrow> [(c, None)]
                       | as \<Rightarrow> map (\<lambda>a. (c, Some a)) as)
                 (customers t))"

text \<open>The search condition of the three reading queries; a comparison with NULL is not
  true.\<close>

definition where_search :: "string \<Rightarrow> customer \<times> address option \<Rightarrow> bool" where
  "where_search pat row =
     (case row of (c, a) \<Rightarrow>
        ilike (first_name c) pat \<or> ilike (last_name c) pat \<or> ilike (phone_number c) pat
        \<or> (case a of None \<Rightarrow> False
            | Some a \<Rightarrow> ilike (address_details a) pat \<or> ilike (city a) pat
                        \<or> ilike (state a) pat \<or> ilike (pin_code a) pat))"

text \<open>\<^verbatim>\<open>GROUP BY c.id\<close>: one group for each id among the rows, with the \<^verbatim>\<open>a\<close> parts of the
  rows of the group.\<close>

definition group_by_id :: "(customer \<times> address option) list \<Rightarrow> (customer \<times> address option list) list" where
  "group_by_id rows =
     map (\<lambda>i. (fst (hd (filter (\<lambda>r. c_id (fst r) = i) rows)),
               map snd (filter (\<lambda>r. c_id (fst r) = i) rows)))
         (remdups (map (\<lambda>r. c_id (fst r)) rows))"

text \<open>\<^verbatim>\<open>COUNT(a.id)\<close> counts the rows of a group whose \<^verbatim>\<open>a.id\<close> is not NULL.\<close>

definition count_a_id :: "address option list \<Rightarrow> nat" where
  "count_a_id as = length (filter (\<lambda>a. a \<noteq> None) as)"

text \<open>\<^verbatim>\<open>ORDER BY c.id DESC\<close>\<close>

definition order_by_id_desc :: "(customer \<times> 'a) list \<Rightarrow> (customer \<times> 'a) list" where
  "order_by_id_desc rows = rev (sort_key (\<lambda>r. c_id (fst r)) rows)"

text \<open>The scalar subquery \<^verbatim>\<open>(SELECT json_agg(row_to_json(a)) FROM addresses a WHERE
  a.customer_id = c.id)\<close>: NULL when no row is aggregated.\<close>

definition json_agg_addresses :: "tables \<Rightarrow> customer \<Rightarrow> address list option" where
  "json_agg_addresses t c =
     (case filter (\<lambda>a. customer_id a = c_id c) (addresses t) of
        [] \<Rightarrow> None | as \<Rightarrow> Some as)"

subsection \<open>GET /api/customers/search\<close>

text \<open>The query without a search term: \<^verbatim>\<open>SELECT c.*, (...) as addresses FROM customers c
  ORDER BY c.id DESC\<close>\<close>

definition select_all_customers :: "(customer \<times> address list option) list act" where
  "select_all_customers c =
     (let t = cur c in
      (Val (order_by_id_desc (map (\<lambda>r. (r, json_agg_addresses t r)) (customers t))), c))"

text \<open>The query with a search term: \<^verbatim>\<open>SELECT DISTINCT c.*, (...) as addresses FROM customers c
  LEFT JOIN addresses a ON c.id = a.customer_id WHERE ... ORDER BY c.id DESC\<close>.  DISTINCT
  removes repeated rows, for which the rows are compared column by column.  The column
  \<^verbatim>\<open>addresses\<close> is the value of \<^verbatim>\<open>json_agg\<close>, of type \<^verbatim>\<open>json\<close>, and PostgreSQL has no
  equality operator for that type: it rejects the statement when it analyses it, whatever
  the pattern is and whatever the tables hold.  The call fails and returns no row.\<close>

definition select_search :: "string \<Rightarrow> (customer \<times> address list option) list act" where
  "select_search pat c = (Throw, c)"

text \<open>\<^verbatim>\<open>({ ...row, addresses: row.addresses || [] })\<close>\<close>

definition search_row_out :: "customer \<times> address list option \<Rightarrow> customer_out" where
  "search_row_out row =
     (case row of (c, as) \<Rightarrow>
        \<lparr>o_id = c_id c, o_first_name = first_name c, o_last_name = last_name c,
         o_phone_number = phone_number c, o_address_count = None,
         o_addresses = (case as of None \<Rightarrow> [] | Some l \<Rightarrow> l)\<rparr>)"

definition get_search :: "faults \<Rightarrow> string option \<Rightarrow> reply act" where
  "get_search f q =
     (let searchTerm = (if truthy q then param q else []) in
      try_catch
        (await (if trim searchTerm = [] then query f select_all_customers
                else query f (select_search (''%'' @ searchTerm @ ''%''))) (\<lambda>rows.
         respond 200 (Data (map search_row_out rows))))
        (respond 500 ErrMessage))"

subsection \<open>GET /api/customers/:id\<close>

text \<open>\<^verbatim>\<open>SELECT * FROM customers WHERE id = $1\<close>\<close>

definition select_customer :: "nat \<Rightarrow> customer list act" where
  "select_customer i c = (Val (filter (\<lambda>r. c_id r = i) (customers (cur c))), c)"

definition get_customer :: "faults \<Rightarrow> nat \<Rightarrow> reply act" where
  "get_customer f customerId =
     try_catch
       (await (query f (select_customer customerId)) (\<lambda>customerRows.
        case customerRows of
          [] \<Rightarrow> respond 404 (Error ''Customer not found'')
        | r # _ \<Rightarrow>
            await (query f (select_addresses_of customerId)) (\<lambda>addressRows.
            respond 200 (DataCustomer
              \<lparr>o_id = c_id r, o_first_name = first_name r, o_last_name = last_name r,
               o_phone_number = phone_number r, o_address_count = None,
               o_addresses = addressRows\<rparr>))))
       (respond 500 ErrMessage)"

subsection \<open>GET /api/customers\<close>

text \<open>\<^verbatim>\<open>searchTerm && searchTerm.trim()\<close>\<close>

definition has_search :: "string option \<Rightarrow> bool" where
  "has_search q = (truthy q \<and> trim (param q) \<noteq> [])"

definition search_pattern :: "string option \<Rightarrow> string" where
  "search_pattern q = ''%'' @ trim (param q) @ ''%''"

text \<open>The query the handler assembles: the WHERE clause is present when there is a search
  term, the HAVING clause when \<^verbatim>\<open>addressCount\<close> is \<^verbatim>\<open>single\<close> or \<^verbatim>\<open>multiple\<close>.  A row of the
  result carries the customer columns, \<^verbatim>\<open>address_count\<close> and the aggregated
  \<^verbatim>\<open>addresses\<close>, in which a NULL \<^verbatim>\<open>a\<close> row is a JSON null.\<close>

definition select_customers :: "string option \<Rightarrow> string option
    \<Rightarrow> (customer \<times> nat \<times> address option list) list act" where
  "select_customers addressCount q c =
     (let joined = left_join (cur c);
          filtered = (if has_search q then filter (where_search (search_pattern q)) joined
                      else joined);
          groups = group_by_id filtered;
          kept = (if addressCount = Some ''single''
                    then filter (\<lambda>g. count_a_id (snd g) = 1) groups
                  else if addressCount = Some ''multiple''
                    then filter (\<lambda>g. count_a_id (snd g) > 1) groups
                  else groups)
      in (Val (map (\<lambda>g. (fst g, count_a_id (snd g), snd g)) (order_by_id_desc kept)), c))"

text \<open>\<^verbatim>\<open>address_count: parseInt(row.address_count) || 0\<close> and
  \<^verbatim>\<open>addresses: row.addresses.filter(addr => addr !== null)\<close>\<close>

definition customers_row_out :: "customer \<times> nat \<times> address option list \<Rightarrow> customer_out" where
  "customers_row_out row =
     (case row of (c, n, as) \<Rightarrow>
        \<lparr>o_id = c_id c, o_first_name = first_name c, o_last_name = last_name c,
         o_phone_number = phone_number c, o_address_count = Some n,
         o_addresses = concat (map (\<lambda>a. case a of None \<Rightarrow> [] | Some x \<Rightarrow> [x]) as)\<rparr>)"

definition get_customers :: "faults \<Rightarrow> string option \<Rightarrow> string option \<Rightarrow> reply act" where
  "get_customers f addressCount q =
     try_catch
       (await (query f (select_customers addressCount q)) (\<lambda>rows.
        respond 200 (Data (map customers_row_out rows))))
       (respond 500 ErrMessage)"

subsection \<open>GET /api/customers/count\<close>

text \<open>The query the handler assembles.  The conditions are joined by AND; for \<^verbatim>\<open>single\<close>
  and \<^verbatim>\<open>multiple\<close> the last condition carries \<^verbatim>\<open>a.id IS NOT NULL GROUP BY c.id HAVING ...\<close>;
  \<^verbatim>\<open>GROUP BY c.id\<close> alone is appended only when \<^verbatim>\<open>!addressCount\<close>; the outer query counts
  the rows of the subquery.\<close>

definition select_count :: "string option \<Rightarrow> string option \<Rightarrow> nat act" where
  "select_count addressCount q c =
     (let joined = left_join (cur c);
          filtered = (if has_search q then filter (where_search (search_pattern q)) joined
                      else joined)
      in (Val (if addressCount = Some ''single''
                 then length (filter (\<lambda>g. count_a_id (snd g) = 1)
                                (group_by_id (filter (\<lambda>r. snd r \<noteq> None) filtered)))
               else if addressCount = Some ''multiple''
                 then length (filter (\<lambda>g. count_a_id (snd g) > 1)
                                (group_by_id (filter (\<lambda>r. snd r \<noteq> None) filtered)))
               else if falsy addressCount
                 then length (group_by_id filtered)
               else length filtered), c))"

definition get_count :: "faults \<Rightarrow> string option \<Rightarrow> string option \<Rightarrow> reply act" where
  "get_count f addressCount q =
     try_catch
       (await (query f (select_count addressCount q)) (\<lambda>total.
        respond 200 (Count total)))
       (respond 500 ErrMessage)"


section \<open>The service as a whole\<close>

datatype request =
    PutCustomer nat fields
  | PostAddresses "nat option" fields
  | PutAddress nat fields
  | DeleteAddress nat
  | DeleteCustomer nat
  | GetSearch "string option"
  | GetCustomer nat
  | GetCustomers "string option" "string option"
  | GetCount "string option" "string option"
  | PostCustomers fields
  | GetCustomerAddresses nat
  | PostCustomerAddresses nat fields

fun handler :: "faults \<Rightarrow> request \<Rightarrow> reply act" where
  "handler f (PutCustomer i body) = put_customer f i body"
| "handler f (PostAddresses i body) = post_addresses f i body"
| "handler f (PutAddress i body) = put_address f i body"
| "handler f (DeleteAddress i) = delete_address f i"
| "handler f (DeleteCustomer i) = delete_customer f i"
| "handler f (GetSearch q) = get_search f q"
| "handler f (GetCustomer i) = get_customer f i"
| "handler f (GetCustomers addressCount q) = get_customers f addressCount q"
| "handler f (GetCount addressCount q) = get_count f addressCount q"
| "handler f (PostCustomers body) = post_customers f body"
| "handler f (GetCustomerAddresses i) = get_customer_addresses f i"
| "handler f (PostCustomerAddresses i body) = post_customer_addresses f i body"

definition serve :: "faults \<Rightarrow> request \<Rightarrow> database \<Rightarrow> reply res \<times> database" where
  "serve f req d = run (handler f req) d"

section \<open>Notions used to state the properties\<close>

text \<open>Patterns of failing calls: none, and the call number \<open>n\<close> alone.\<close>

definition no_faults :: faults where
  "no_faults k = False"

definition fault_at :: "nat \<Rightarrow> faults" where
  "fault_at n k = (k = n)"

definition fault_in :: "nat list \<Rightarrow> faults" where
  "fault_in ns k = (k \<in> set ns)"

text \<open>The call number \<open>k\<close> is the first call of the request that fails.\<close>

definition first_fault :: "faults \<Rightarrow> nat \<Rightarrow> bool" where
  "first_fault f k = (f k \<and> (\<forall>j<k. \<not> f j))"

text \<open>The calls number 0 to \<open>n\<close> of a request succeed.\<close>

definition calls_ok :: "faults \<Rightarrow> nat \<Rightarrow> bool" where
  "calls_ok f n = (\<forall>k\<le>n. \<not> f k)"

text \<open>The HTTP status of a reply and the rows of a \<^verbatim>\<open>{ data: ... }\<close> reply.\<close>

definition reply_status :: "reply res \<Rightarrow> nat option" where
  "reply_status r = (case r of Val (Reply s b) \<Rightarrow> Some s | Throw \<Rightarrow> None)"

definition rows_of :: "reply res \<Rightarrow> customer_out list" where
  "rows_of r = (case r of Val (Reply s (Data rows)) \<Rightarrow> rows | _ \<Rightarrow> [])"

definition customer_ids :: "database \<Rightarrow> nat list" where
  "customer_ids d = map c_id (customers (tabs d))"

definition addresses_of :: "tables \<Rightarrow> nat \<Rightarrow> address list" where
  "addresses_of t i = filter (\<lambda>a. customer_id a = i) (addresses t)"

text \<open>The tables without the addresses of a customer.\<close>

definition without_addresses :: "nat \<Rightarrow> tables \<Rightarrow> tables" where
  "without_addresses i t = t\<lparr>addresses := filter (\<lambda>r. customer_id r \<noteq> i) (addresses t)\<rparr>"

text \<open>The tables without a customer and without the addresses of that customer.\<close>

definition without_customer :: "nat \<Rightarrow> tables \<Rightarrow> tables" where
  "without_customer i t =
     \<lparr>customers = filter (\<lambda>r. c_id r \<noteq> i) (customers t),
      addresses = filter (\<lambda>r. customer_id r \<noteq> i) (addresses t)\<rparr>"

text \<open>The payload of a create request names a customer that is already in the table.\<close>

definition duplicate_triple :: "fields \<Rightarrow> database \<Rightarrow> bool" where
  "duplicate_triple body d =
     (\<exists>r \<in> set (customers (tabs d)).
        body ''first_name'' = Some (first_name r) \<and> body ''last_name'' = Some (last_name r)
        \<and> body ''phone_number'' = Some (phone_number r))"

text \<open>The payload passes the checks of POST /api/customers.\<close>

definition valid_create :: "fields \<Rightarrow> bool" where
  "valid_create body =
     (truthy (body ''first_name'') \<and> truthy (body ''last_name'')
      \<and> truthy (body ''phone_number'') \<and> truthy (body ''address_details'')
      \<and> truthy (body ''city'') \<and> truthy (body ''state'') \<and> truthy (body ''pin_code'')
      \<and> test_digits 10 (body ''phone_number'') \<and> test_digits 6 (body ''pin_code''))"

text \<open>No call of the request to the store fails.\<close>

definition store_works :: "faults \<Rightarrow> bool" where
  "store_works f = (\<forall>k. \<not> f k)"

text \<open>The payload passes the checks of PUT /api/customers/:id.\<close>

definition valid_update :: "fields \<Rightarrow> bool" where
  "valid_update body =
     (truthy (body ''first_name'') \<and> truthy (body ''last_name'')
      \<and> truthy (body ''phone_number'') \<and> test_digits 10 (body ''phone_number''))"

text \<open>The four address fields are all present, the guard of the address insert of
  PUT /api/customers/:id.\<close>

definition full_address :: "fields \<Rightarrow> bool" where
  "full_address body =
     (truthy (body ''address_details'') \<and> truthy (body ''city'')
      \<and> truthy (body ''state'') \<and> truthy (body ''pin_code''))"

text \<open>Every address row belongs to exactly one customer.\<close>

definition belongs_to_one :: "tables \<Rightarrow> bool" where
  "belongs_to_one t =
     (\<forall>a \<in> set (addresses t).
        length (filter (\<lambda>r. c_id r = customer_id a) (customers t)) = 1)"

text \<open>The customer ids in the table were all handed out by the sequence.\<close>

definition ids_from_seq :: "database \<Rightarrow> bool" where
  "ids_from_seq d = (\<forall>r \<in> set (customers (tabs d)). c_id r < customers_id_seq d)"

text \<open>\<^verbatim>\<open>customers.id\<close> is a key.\<close>

definition primary_key :: "database \<Rightarrow> bool" where
  "primary_key d = distinct (customer_ids d)"

text \<open>The invariant of the tables: the customer ids are distinct and below the next value
  \<open>n\<close> of the sequence and, when the foreign key is enforced (\<open>fk\<close>), the customer_id of
  every address is the id of a customer.  It holds of the committed tables and of the
  working copy of a transaction.\<close>

definition tabs_ok :: "bool \<Rightarrow> nat \<Rightarrow> tables \<Rightarrow> bool" where
  "tabs_ok fk n t =
     (distinct (map c_id (customers t)) \<and> (\<forall>r \<in> set (customers t). c_id r < n)
      \<and> (fk \<longrightarrow> (\<forall>a \<in> set (addresses t). customer_id a \<in> set (map c_id (customers t)))))"

definition conn_ok :: "bool \<Rightarrow> conn \<Rightarrow> bool" where
  "conn_ok fk c =
     (fk_enforced (pool c) = fk \<and> tabs_ok fk (customers_id_seq (pool c)) (tabs (pool c))
      \<and> (\<forall>t. work c = Some t \<longrightarrow> tabs_ok fk (customers_id_seq (pool c)) t))"

definition preserves :: "(conn \<Rightarrow> bool) \<Rightarrow> 'a act \<Rightarrow> bool" where
  "preserves P m = (\<forall>c. P c \<longrightarrow> P (snd (m c)))"

text \<open>A customer matches a pattern when one of its own text columns does, or one of the
  text columns of one of its addresses.\<close>

definition customer_matches :: "string \<Rightarrow> tables \<Rightarrow> customer \<Rightarrow> bool" where
  "customer_matches pat t c =
     (where_search pat (c, None)
      \<or> (\<exists>a \<in> set (addresses_of t (c_id c)). where_search pat (c, Some a)))"

definition list_selects :: "string option \<Rightarrow> tables \<Rightarrow> customer \<Rightarrow> bool" where
  "list_selects q t c =
     (if has_search q then customer_matches (search_pattern q) t c else True)"

text \<open>The rows of the join that belong to one customer.\<close>

definition join_rows :: "tables \<Rightarrow> customer \<Rightarrow> (customer \<times> address option) list" where
  "join_rows t c =
     (case filter (\<lambda>a. customer_id a = c_id c) (addresses t) of
        [] \<Rightarrow> [(c, None)] | as \<Rightarrow> map (\<lambda>a. (c, Some a)) as)"

text \<open>The search condition of a list request, on a row of the join.\<close>

definition search_cond :: "string option \<Rightarrow> customer \<times> address option \<Rightarrow> bool" where
  "search_cond q r = (if has_search q then where_search (search_pattern q) r else True)"

text \<open>The addresses of a customer in the answer of the list handler: with a search term,
  those whose row of the join satisfies the search condition.\<close>

definition listed_addresses :: "string option \<Rightarrow> tables \<Rightarrow> customer \<Rightarrow> address list" where
  "listed_addresses q t c =
     (if has_search q
      then filter (\<lambda>a. where_search (search_pattern q) (c, Some a)) (addresses_of t (c_id c))
      else addresses_of t (c_id c))"

text \<open>The customers in the answer of the list handler.\<close>

definition listed :: "string option \<Rightarrow> string option \<Rightarrow> tables \<Rightarrow> customer \<Rightarrow> bool" where
  "listed addressCount q t c =
     (list_selects q t c \<and>
      (if addressCount = Some ''single'' then length (listed_addresses q t c) = 1
       else if addressCount = Some ''multiple'' then length (listed_addresses q t c) > 1
       else True))"

text \<open>The row of a customer in the answer of the list handler and in the answer of the
  search handler.\<close>

definition list_row :: "string option \<Rightarrow> tables \<Rightarrow> customer \<Rightarrow> customer_out" where
  "list_row q t c =
     \<lparr>o_id = c_id c, o_first_name = first_name c, o_last_name = last_name c,
      o_phone_number = phone_number c,
      o_address_count = Some (length (listed_addresses q t c)),
      o_addresses = listed_addresses q t c\<rparr>"

definition search_row :: "tables \<Rightarrow> customer \<Rightarrow> customer_out" where
  "search_row t c =
     \<lparr>o_id = c_id c, o_first_name = first_name c, o_last_name = last_name c,
      o_phone_number = phone_number c, o_address_count = None,
      o_addresses = addresses_of t (c_id c)\<rparr>"

subsection \<open>Sample data\<close>

text \<open>A store with two customers, the first with two addresses and the second with none,
  and some request bodies.\<close>

definition shop :: database where
  "shop =
     \<lparr>tabs =
        \<lparr>customers =
           [\<lparr>c_id = 1, first_name = ''Asha'', last_name = ''Rao'', phone_number = ''9876543210''\<rparr>,
            \<lparr>c_id = 2, first_name = ''Ben'', last_name = ''Lee'', phone_number = ''9123456780''\<rparr>],
         addresses =
           [\<lparr>a_id = 1, customer_id = 1, address_details = ''12 Hill Road'', city = ''Pune'',
              state = ''MH'', pin_code = ''411001''\<rparr>,
            \<lparr>a_id = 2, customer_id = 1, address_details = ''7 Lake View'', city = ''Delhi'',
              state = ''DL'', pin_code = ''110001''\<rparr>]\<rparr>,
      customers_id_seq = 3, addresses_id_seq = 3, fk_enforced = False, leased = 0,
      abandoned = []\<rparr>"

definition shop_fk :: database where
  "shop_fk = shop\<lparr>fk_enforced := True\<rparr>"

definition asha_again :: fields where
  "asha_again =
     [''first_name'' \<mapsto> ''Asha'', ''last_name'' \<mapsto> ''Rao'', ''phone_number'' \<mapsto> ''9876543210'',
      ''address_details'' \<mapsto> ''3 Mill Lane'', ''city'' \<mapsto> ''Pune'', ''state'' \<mapsto> ''MH'',
      ''pin_code'' \<mapsto> ''411002'']"

definition asha_short_pin :: fields where
  "asha_short_pin = asha_again(''pin_code'' \<mapsto> ''4110'')"

definition asha_short_phone :: fields where
  "asha_short_phone = asha_again(''phone_number'' \<mapsto> ''98765'')"

definition asha_street_only :: fields where
  "asha_street_only =
     [''first_name'' \<mapsto> ''Asha'', ''last_name'' \<mapsto> ''Rao'', ''phone_number'' \<mapsto> ''9876543210'',
      ''address_details'' \<mapsto> ''3 Mill Lane'']"

definition mill_lane :: fields where
  "mill_lane =
     [''address_details'' \<mapsto> ''3 Mill Lane'', ''city'' \<mapsto> ''Pune'', ''state'' \<mapsto> ''MH'',
      ''pin_code'' \<mapsto> ''411002'']"

definition mill_lane_short_pin :: fields where
  "mill_lane_short_pin = mill_lane(''pin_code'' \<mapsto> ''4110'')"


section \<open>Properties\<close>

lemma falsy_iff [simp]: "falsy v = (\<not> truthy v)"
  by (simp add: falsy_def truthy_def split: option.split)

lemma falsy_id_iff [simp]: "falsy_id v = (\<not> truthy_id v)"
  by (simp add: falsy_id_def truthy_id_def split: option.split)

lemmas step_defs = await_def respond_def skip_def try_catch_def try_catch_finally_def run_def
  getClient_def release_def give_up_def left_open_def query_def cur_def put_cur_def
  sql_BEGIN_def sql_COMMIT_def sql_ROLLBACK_def

subsection \<open>Creating a customer that exists already\<close>

lemma duplicate_rows:
  "duplicate_triple body d \<Longrightarrow>
   filter (\<lambda>r. first_name r = param (body ''first_name'')
              \<and> last_name r = param (body ''last_name'')
              \<and> phone_number r = param (body ''phone_number'')) (customers (tabs d)) \<noteq> []"
  by (auto simp: duplicate_triple_def param_def filter_empty_conv)

lemma post_customers_duplicate_store:
  assumes "duplicate_triple body d"
  shows "snd (run (post_customers f body) d) = d"
  using duplicate_rows[OF assms]
  by (simp add: post_customers_def step_defs select_duplicate_def Let_def)

lemma post_customers_duplicate_reply:
  assumes "duplicate_triple body d" "valid_create body" "store_works f"
  shows "fst (run (post_customers f body) d) =
           Val (Reply 409
                 (ErrorField ''Customer with this name and phone number already exists.''
                    ''phone_number''))"
  using duplicate_rows[OF assms(1)] assms(2,3)
  by (simp add: post_customers_def step_defs select_duplicate_def Let_def valid_create_def
        store_works_def)

text \<open>
  C1, as the claim states it, fails: a create request that repeats the triple of an existing
  customer but carries a pin code of four digits is answered by the validation with 400,
  not with 409.
\<close>

theorem post_customers_duplicate_short_pin:
  "duplicate_triple asha_short_pin shop \<and>
   reply_status (fst (run (post_customers no_faults asha_short_pin) shop)) = Some 400 \<and>
   reply_status (fst (run (post_customers no_faults asha_short_pin) shop)) \<noteq> Some 409"
  by code_simp

text \<open>
  C1, amended: a create request whose (first_name, last_name, phone_number) is the triple of
  an existing customer row leaves the database as it was, whatever the validation says and
  whichever call to the store fails; when the payload passes the validation and no call to
  the store fails, the reply is the 409 conflict error.
\<close>

theorem post_customers_duplicate:
  "duplicate_triple body d \<Longrightarrow>
   snd (run (post_customers f body) d) = d \<and>
   (valid_create body \<and> store_works f \<longrightarrow>
      fst (run (post_customers f body) d) =
        Val (Reply 409
              (ErrorField ''Customer with this name and phone number already exists.''
                 ''phone_number'')))"
  using post_customers_duplicate_store post_customers_duplicate_reply by blast

theorem post_customers_duplicate_witness:
  "duplicate_triple asha_again shop \<and> valid_create asha_again \<and> store_works no_faults \<and>
   run (post_customers no_faults asha_again) shop =
     (Val (Reply 409
            (ErrorField ''Customer with this name and phone number already exists.''
               ''phone_number'')), shop)"
proof -
  have h1: "duplicate_triple asha_again shop" by code_simp
  have h2: "valid_create asha_again" by code_simp
  have h3: "store_works no_faults" by (simp add: store_works_def no_faults_def)
  from post_customers_duplicate[OF h1, of no_faults] h1 h2 h3 show ?thesis
    by (simp add: prod_eq_iff)
qed

subsection \<open>Updating a customer\<close>

lemma unknown_id_rows:
  "i \<notin> set (customer_ids d) \<Longrightarrow> filter (\<lambda>r. c_id r = i) (customers (tabs d)) = []"
  by (auto simp: customer_ids_def filter_empty_conv)

lemma known_id_rows:
  "i \<in> set (customer_ids d) \<Longrightarrow> filter (\<lambda>r. c_id r = i) (customers (tabs d)) \<noteq> []"
  by (auto simp: customer_ids_def filter_empty_conv)

lemmas put_customer_folded = put_customer_def[folded full_address_def]

lemma unknown_id_update:
  "i \<notin> set (customer_ids d) \<Longrightarrow>
   map (\<lambda>r. if c_id r = i then g r else r) (customers (tabs d)) = customers (tabs d)"
  by (intro map_idI) (auto simp: customer_ids_def)

lemma put_customer_unknown_id_store:
  assumes "i \<notin> set (customer_ids d)"
  shows "snd (run (put_customer f i body) d) = d"
  using unknown_id_rows[OF assms]
  by (simp add: put_customer_def step_defs update_customers_def Let_def
        unknown_id_update[OF assms])

lemma put_customer_unknown_id_reply:
  assumes "i \<notin> set (customer_ids d)" "valid_update body" "store_works f"
  shows "fst (run (put_customer f i body) d) = Val (Reply 404 (Error ''Customer not found.''))"
  using unknown_id_rows[OF assms(1)] assms(2,3)
  by (simp add: put_customer_def step_defs update_customers_def Let_def valid_update_def
        store_works_def)

text \<open>
  C6, as the claim states it, fails: an update of an id that no customer has, with a full
  address payload but a phone number of five digits, is answered by the validation with 400,
  not with 404.
\<close>

theorem put_customer_unknown_id_short_phone:
  "99 \<notin> set (customer_ids shop) \<and> full_address asha_short_phone \<and>
   reply_status (fst (run (put_customer no_faults 99 asha_short_phone) shop)) = Some 400 \<and>
   reply_status (fst (run (put_customer no_faults 99 asha_short_phone) shop)) \<noteq> Some 404"
  by code_simp

text \<open>
  C6, amended: an update request whose id matches no customer row leaves the database as it
  was (so no address row is inserted, also when a full address payload is supplied),
  whichever call to the store fails; when first_name, last_name and phone_number pass the
  validation and no call to the store fails, the reply is the 404 not-found error.
\<close>

theorem put_customer_unknown_id:
  "i \<notin> set (customer_ids d) \<Longrightarrow>
   snd (run (put_customer f i body) d) = d \<and>
   (valid_update body \<and> store_works f \<longrightarrow>
      fst (run (put_customer f i body) d) = Val (Reply 404 (Error ''Customer not found.'')))"
  using put_customer_unknown_id_store put_customer_unknown_id_reply by blast

theorem put_customer_unknown_id_witness:
  "99 \<notin> set (customer_ids shop) \<and> valid_update asha_again \<and> full_address asha_again \<and>
   store_works no_faults \<and>
   run (put_customer no_faults 99 asha_again) shop =
     (Val (Reply 404 (Error ''Customer not found.'')), shop)"
proof -
  have h1: "99 \<notin> set (customer_ids shop)" by code_simp
  have h2: "valid_update asha_again" by code_simp
  have h3: "store_works no_faults" by (simp add: store_works_def no_faults_def)
  have h4: "full_address asha_again" by code_simp
  from put_customer_unknown_id[OF h1, of no_faults asha_again] h1 h2 h3 h4 show ?thesis
    by (simp add: prod_eq_iff)
qed

lemma put_customer_partial_store:
  assumes "\<not> full_address body"
  shows "addresses (tabs (snd (run (put_customer f i body) d))) = addresses (tabs d)
       \<and> addresses_id_seq (snd (run (put_customer f i body) d)) = addresses_id_seq d"
  using assms
  by (simp add: put_customer_folded step_defs update_customers_def Let_def)

lemma put_customer_partial_reply:
  assumes "truthy (body ''address_details'')" "\<not> full_address body" "valid_update body"
    "i \<in> set (customer_ids d)" "store_works f"
  shows "fst (run (put_customer f i body) d) =
           Val (Reply 200 (Message ''Customer and address updated successfully.''))"
  using known_id_rows[OF assms(4)] assms(1,2,3,5)
  by (simp add: put_customer_folded step_defs update_customers_def Let_def valid_update_def
        store_works_def)

text \<open>
  C10, as the claim states it, fails: an update with only address_details of the address
  fields, for an id that no customer has, is answered with 404 and not with the success
  message.
\<close>

theorem put_customer_partial_address_unknown_id:
  "truthy (asha_street_only ''address_details'') \<and> \<not> full_address asha_street_only \<and>
   fst (run (put_customer no_faults 99 asha_street_only) shop) =
     Val (Reply 404 (Error ''Customer not found.''))"
  by code_simp

text \<open>
  C10, amended: an update request in which address_details is non-empty but one of city,
  state and pin_code is missing inserts no address row; when the request passes the
  validation of name and phone, its id is the id of a customer row and no call to the store
  fails, the reply is the success message ``Customer and address updated successfully.''
\<close>

theorem put_customer_partial_address:
  "truthy (body ''address_details'') \<Longrightarrow> \<not> full_address body \<Longrightarrow>
   addresses (tabs (snd (run (put_customer f i body) d))) = addresses (tabs d) \<and>
   (valid_update body \<and> i \<in> set (customer_ids d) \<and> store_works f \<longrightarrow>
      fst (run (put_customer f i body) d) =
        Val (Reply 200 (Message ''Customer and address updated successfully.'')))"
  using put_customer_partial_store put_customer_partial_reply by blast

theorem put_customer_partial_address_witness:
  "truthy (asha_street_only ''address_details'') \<and> \<not> full_address asha_street_only \<and>
   valid_update asha_street_only \<and> 1 \<in> set (customer_ids shop) \<and> store_works no_faults \<and>
   addresses (tabs (snd (run (put_customer no_faults 1 asha_street_only) shop))) =
     addresses (tabs shop) \<and>
   fst (run (put_customer no_faults 1 asha_street_only) shop) =
     Val (Reply 200 (Message ''Customer and address updated successfully.''))"
proof -
  have h1: "truthy (asha_street_only ''address_details'')" by code_simp
  have h2: "\<not> full_address asha_street_only" by code_simp
  have h3: "valid_update asha_street_only" by code_simp
  have h4: "1 \<in> set (customer_ids shop)" by code_simp
  have h5: "store_works no_faults" by (simp add: store_works_def no_faults_def)
  from put_customer_partial_address[OF h1 h2, of no_faults 1 shop] h1 h2 h3 h4 h5
  show ?thesis by simp
qed

subsection \<open>Deleting a customer\<close>

lemma no_address_left:
  "i \<notin> customer_id ` {x \<in> set xs. customer_id x \<noteq> i}"
  by auto

lemma delete_customer_works:
  assumes "calls_ok f 4"
  shows "run (delete_customer f i) d =
           (if i \<in> set (customer_ids d)
            then (Val (Reply 200
                        (Message ''Customer and all associated addresses deleted successfully.'')),
                  d\<lparr>tabs := without_customer i (tabs d)\<rparr>)
            else (Val (Reply 404 (Error ''Customer not found.'')), d))"
proof -
  from assms have f: "\<not> f 0" "\<not> f (Suc 0)" "\<not> f (Suc (Suc 0))" "\<not> f (Suc (Suc (Suc 0)))"
    "\<not> f (Suc (Suc (Suc (Suc 0))))"
    by (simp_all add: calls_ok_def numeral_eq_Suc)
  show ?thesis
  proof (cases "i \<in> set (customer_ids d)")
    case True
    from known_id_rows[OF True] f show ?thesis using True
      by (simp add: delete_customer_def step_defs delete_addresses_of_def
            delete_customer_row_def Let_def without_customer_def no_address_left)
  next
    case False
    from unknown_id_rows[OF False] f show ?thesis using False
      by (simp add: delete_customer_def step_defs delete_addresses_of_def
            delete_customer_row_def Let_def no_address_left)
  qed
qed

lemma delete_customer_no_client:
  "f 0 \<Longrightarrow> run (delete_customer f i) d = (Throw, d)"
  by (simp add: delete_customer_def step_defs)

lemma first_fault_simps:
  "first_fault f (Suc 0) \<longleftrightarrow> f (Suc 0) \<and> \<not> f 0"
  "first_fault f (Suc (Suc 0)) \<longleftrightarrow> f (Suc (Suc 0)) \<and> \<not> f (Suc 0) \<and> \<not> f 0"
  "first_fault f (Suc (Suc (Suc 0))) \<longleftrightarrow>
     f (Suc (Suc (Suc 0))) \<and> \<not> f (Suc (Suc 0)) \<and> \<not> f (Suc 0) \<and> \<not> f 0"
  "first_fault f (Suc (Suc (Suc (Suc 0)))) \<longleftrightarrow>
     f (Suc (Suc (Suc (Suc 0)))) \<and> \<not> f (Suc (Suc (Suc 0))) \<and> \<not> f (Suc (Suc 0))
     \<and> \<not> f (Suc 0) \<and> \<not> f 0"
  by (auto simp: first_fault_def less_Suc_eq)

lemma delete_customer_rolled_back:
  assumes "k \<in> {1, 2, 3, 4}" "first_fault f k" "\<not> f (Suc k)"
  shows "run (delete_customer f i) d = (Val (Reply 500 ErrMessage), d)"
proof -
  from assms(1) consider "k = Suc 0" | "k = Suc (Suc 0)" | "k = Suc (Suc (Suc 0))"
    | "k = Suc (Suc (Suc (Suc 0)))"
    by (auto simp: numeral_eq_Suc)
  then show ?thesis
    using assms(2,3)
    by cases
       (simp_all add: first_fault_simps delete_customer_def step_defs delete_addresses_of_def
          delete_customer_row_def Let_def no_address_left)
qed

lemma delete_customer_nothing_open:
  assumes "k \<in> {1, 2}" "first_fault f k" "f (Suc k)"
  shows "run (delete_customer f i) d = (Throw, d)"
proof -
  from assms(1) consider "k = Suc 0" | "k = Suc (Suc 0)"
    by (auto simp: numeral_eq_Suc)
  then show ?thesis
    using assms(2,3)
    by cases
       (simp_all add: first_fault_simps delete_customer_def step_defs delete_addresses_of_def
          delete_customer_row_def Let_def)
qed

lemma delete_customer_addresses_open:
  assumes "first_fault f 3" "f 4"
  shows "run (delete_customer f i) d = (Throw, left_open (without_addresses i (tabs d)) d)"
  using assms
  by (simp add: numeral_eq_Suc first_fault_simps delete_customer_def step_defs
        delete_addresses_of_def delete_customer_row_def Let_def without_addresses_def)

lemma tables_updates:
  "t\<lparr>addresses := a, customers := c\<rparr> = \<lparr>customers = c, addresses = a\<rparr>"
  by (cases t) simp

lemma delete_customer_all_open:
  assumes "first_fault f 4" "f 5"
  shows "run (delete_customer f i) d = (Throw, left_open (without_customer i (tabs d)) d)"
  using assms
  by (simp add: numeral_eq_Suc first_fault_simps delete_customer_def step_defs
        delete_addresses_of_def delete_customer_row_def Let_def without_customer_def
        no_address_left tables_updates)

text \<open>
  C2: the calls of a delete request are numbered 0 (the client is taken from the pool),
  1 (BEGIN), 2 (the addresses are deleted), 3 (the customer is deleted) and 4 (COMMIT, or
  ROLLBACK when no customer row was deleted); after a failing call \<open>k\<close> the catch block
  issues ROLLBACK as call \<open>k + 1\<close>.

  When none of the calls 0 to 4 fails, an existing customer is removed together with all
  its address rows, and for an id without customer row the reply is the 404 error and the
  database is as before: the deletion of address rows is rolled back, no transaction is
  left open.  When a call fails and the ROLLBACK of the catch block succeeds, the reply is
  500 and the database is as before, also after a failure between the deletion of the
  addresses and the deletion of the customer.  The committed tables change in no other
  case than the first: when no client is obtained, or the ROLLBACK of the catch block
  fails as well, there is no reply, nothing is committed, and what the transaction had
  deleted stays deleted in a transaction that is left open.
\<close>

theorem delete_customer_atomic:
  "(calls_ok f 4 \<longrightarrow>
      run (delete_customer f i) d =
        (if i \<in> set (customer_ids d)
         then (Val (Reply 200
                     (Message ''Customer and all associated addresses deleted successfully.'')),
               d\<lparr>tabs := without_customer i (tabs d)\<rparr>)
         else (Val (Reply 404 (Error ''Customer not found.'')), d))) \<and>
   (f 0 \<longrightarrow> run (delete_customer f i) d = (Throw, d)) \<and>
   (\<forall>k \<in> {1, 2, 3, 4}. first_fault f k \<and> \<not> f (Suc k) \<longrightarrow>
      run (delete_customer f i) d = (Val (Reply 500 ErrMessage), d)) \<and>
   (\<forall>k \<in> {1, 2}. first_fault f k \<and> f (Suc k) \<longrightarrow>
      run (delete_customer f i) d = (Throw, d)) \<and>
   (first_fault f 3 \<and> f 4 \<longrightarrow>
      run (delete_customer f i) d = (Throw, left_open (without_addresses i (tabs d)) d)) \<and>
   (first_fault f 4 \<and> f 5 \<longrightarrow>
      run (delete_customer f i) d = (Throw, left_open (without_customer i (tabs d)) d))"
proof (intro conjI impI ballI)
  assume "calls_ok f 4"
  then show "run (delete_customer f i) d =
        (if i \<in> set (customer_ids d)
         then (Val (Reply 200
                     (Message ''Customer and all associated addresses deleted successfully.'')),
               d\<lparr>tabs := without_customer i (tabs d)\<rparr>)
         else (Val (Reply 404 (Error ''Customer not found.'')), d))"
    by (rule delete_customer_works)
next
  assume "f 0"
  then show "run (delete_customer f i) d = (Throw, d)"
    by (rule delete_customer_no_client)
next
  fix k :: nat
  assume "k \<in> {1, 2, 3, 4}" "first_fault f k \<and> \<not> f (Suc k)"
  then show "run (delete_customer f i) d = (Val (Reply 500 ErrMessage), d)"
    using delete_customer_rolled_back[of k f i d] by simp
next
  fix k :: nat
  assume "k \<in> {1, 2}" "first_fault f k \<and> f (Suc k)"
  then show "run (delete_customer f i) d = (Throw, d)"
    using delete_customer_nothing_open[of k f i d] by simp
next
  assume "first_fault f 3 \<and> f 4"
  then show "run (delete_customer f i) d =
      (Throw, left_open (without_addresses i (tabs d)) d)"
    using delete_customer_addresses_open[of f i d] by simp
next
  assume "first_fault f 4 \<and> f 5"
  then show "run (delete_customer f i) d =
      (Throw, left_open (without_customer i (tabs d)) d)"
    using delete_customer_all_open[of f i d] by simp
qed

theorem delete_customer_atomic_witness:
  "calls_ok no_faults 4 \<and> 1 \<in> set (customer_ids shop) \<and> 7 \<notin> set (customer_ids shop) \<and>
   first_fault (fault_at 3) 3 \<and> \<not> fault_at 3 4 \<and>
   first_fault (fault_in [3, 4]) 3 \<and> fault_in [3, 4] 4 \<and>
   run (delete_customer no_faults 1) shop =
     (Val (Reply 200 (Message ''Customer and all associated addresses deleted successfully.'')),
      shop\<lparr>tabs := \<lparr>customers = [\<lparr>c_id = 2, first_name = ''Ben'', last_name = ''Lee'',
                                   phone_number = ''9123456780''\<rparr>],
                     addresses = []\<rparr>\<rparr>) \<and>
   run (delete_customer no_faults 7) shop = (Val (Reply 404 (Error ''Customer not found.'')), shop) \<and>
   run (delete_customer (fault_at 3) 1) shop = (Val (Reply 500 ErrMessage), shop) \<and>
   run (delete_customer (fault_in [3, 4]) 1) shop =
     (Throw, shop\<lparr>abandoned := [(tabs shop)\<lparr>addresses := []\<rparr>]\<rparr>)"
proof -
  have h1: "calls_ok no_faults 4" by (simp add: calls_ok_def no_faults_def)
  have h2: "1 \<in> set (customer_ids shop)" by code_simp
  have h3: "7 \<notin> set (customer_ids shop)" by code_simp
  have h4: "first_fault (fault_at 3) 3" "\<not> fault_at 3 4"
    by (simp_all add: first_fault_def fault_at_def)
  have h5: "first_fault (fault_in [3, 4]) 3" "fault_in [3, 4] 4"
    by (simp_all add: first_fault_def fault_in_def)
  have h6: "without_customer 1 (tabs shop) =
      \<lparr>customers = [\<lparr>c_id = 2, first_name = ''Ben'', last_name = ''Lee'',
                                   phone_number = ''9123456780''\<rparr>],
                     addresses = []\<rparr>" by code_simp
  have h7: "left_open (without_addresses 1 (tabs shop)) shop =
      shop\<lparr>abandoned := [(tabs shop)\<lparr>addresses := []\<rparr>]\<rparr>" by code_simp
  have k3: "(3::nat) \<in> {1, 2, 3, 4}" by simp
  note t1 = delete_customer_atomic[of no_faults 1 shop]
  note t2 = delete_customer_atomic[of no_faults 7 shop]
  note t3 = delete_customer_atomic[of "fault_at 3" 1 shop]
  note t4 = delete_customer_atomic[of "fault_in [3, 4]" 1 shop]
  have r1: "run (delete_customer no_faults 1) shop =
     (Val (Reply 200 (Message ''Customer and all associated addresses deleted successfully.'')),
      shop\<lparr>tabs := \<lparr>customers = [\<lparr>c_id = 2, first_name = ''Ben'', last_name = ''Lee'',
                                   phone_number = ''9123456780''\<rparr>],
                     addresses = []\<rparr>\<rparr>)"
    using t1 h1 h2 h6 by simp
  have r2: "run (delete_customer no_faults 7) shop =
      (Val (Reply 404 (Error ''Customer not found.'')), shop)"
    using t2 h1 h3 by simp
  have r3: "run (delete_customer (fault_at 3) 1) shop = (Val (Reply 500 ErrMessage), shop)"
    using t3 h4 k3 by (simp add: numeral_eq_Suc)
  have r4: "run (delete_customer (fault_in [3, 4]) 1) shop =
     (Throw, shop\<lparr>abandoned := [(tabs shop)\<lparr>addresses := []\<rparr>]\<rparr>)"
    using t4 h5 h7 by simp
  show ?thesis
    by (intro conjI h1 h2 h3 h4 h5 r1 r2 r3 r4)
qed

subsection \<open>The client goes back to the pool\<close>

lemma post_customers_released: "leased (snd (run (post_customers f body) d)) = leased d"
  by (simp add: post_customers_def step_defs select_duplicate_def insert_customer_def
        insert_address_def Let_def)

lemma put_customer_released: "leased (snd (run (put_customer f i body) d)) = leased d"
  by (simp add: put_customer_def step_defs update_customers_def insert_address_def Let_def)

lemma delete_customer_released: "leased (snd (run (delete_customer f i) d)) = leased d"
  by (simp add: delete_customer_def step_defs delete_addresses_of_def delete_customer_row_def Let_def)

text \<open>
  C9: the three handlers that take a client from the pool (create, update and delete
  customer) give it back on every path.  The number of clients checked out is the same
  after the request as before it, for every payload, every database and every pattern of
  failing calls: after a success, after a 404 or 409 rejection inside the transaction,
  after a store error, and also when the ROLLBACK of the catch block fails itself.
\<close>

theorem client_released_on_every_path:
  "leased (snd (run (post_customers f body) d)) = leased d \<and>
   leased (snd (run (put_customer f i body) d)) = leased d \<and>
   leased (snd (run (delete_customer f i) d)) = leased d"
  by (simp only: post_customers_released put_customer_released delete_customer_released)

subsection \<open>Validation\<close>

text \<open>Each writing handler answers a payload that fails its own checks with 400 and does
  not touch the database.\<close>

lemma validation_rejects:
  "\<not> valid_create body \<Longrightarrow> \<exists>b. run (post_customers f body) d = (Val (Reply 400 b), d)"
  "\<not> valid_update body \<Longrightarrow> \<exists>b. run (put_customer f i body) d = (Val (Reply 400 b), d)"
  "\<not> (truthy_id cid \<and> full_address body) \<Longrightarrow>
     \<exists>b. run (post_addresses f cid body) d = (Val (Reply 400 b), d)"
  "\<not> full_address body \<Longrightarrow> \<exists>b. run (put_address f i body) d = (Val (Reply 400 b), d)"
  "\<not> (full_address body \<and> test_digits 6 (body ''pin_code'')) \<Longrightarrow>
     \<exists>b. run (post_customer_addresses f i body) d = (Val (Reply 400 b), d)"
  by (auto simp: valid_create_def valid_update_def full_address_def post_customers_def
        put_customer_def post_addresses_def put_address_def post_customer_addresses_def
        respond_def run_def give_up_def)

text \<open>
  C3 at POST /api/addresses: the handler checks the presence of the fields only.  A pin
  code of four digits is accepted and the address row is written, whereas
  POST /api/customers and POST /api/customers/:id/addresses test the pin code against
  six digits.
\<close>

theorem post_addresses_short_pin:
  "\<not> test_digits 6 (mill_lane_short_pin ''pin_code'') \<and>
   run (post_addresses no_faults (Some 1) mill_lane_short_pin) shop =
     (Val (Reply 201 (AddressRow
        \<lparr>a_id = 3, customer_id = 1, address_details = ''3 Mill Lane'', city = ''Pune'',
         state = ''MH'', pin_code = ''4110''\<rparr>)),
      shop\<lparr>tabs := (tabs shop)\<lparr>addresses := addresses (tabs shop) @
               [\<lparr>a_id = 3, customer_id = 1, address_details = ''3 Mill Lane'', city = ''Pune'',
                 state = ''MH'', pin_code = ''4110''\<rparr>]\<rparr>,
            addresses_id_seq := 4\<rparr>)"
  by code_simp

subsection \<open>Every address belongs to one customer\<close>

text \<open>The invariant \<open>conn_ok\<close> is kept by every step of every handler.  With an
  enforced foreign key it says that every address refers to a customer: an insert of an
  address for an id without customer fails then.\<close>

lemma preserves_await:
  "preserves P m \<Longrightarrow> (\<And>v. preserves P (k v)) \<Longrightarrow> preserves P (await m k)"
  unfolding preserves_def await_def
  by (auto split: prod.splits res.splits)

lemma preserves_respond: "preserves P (respond s b)"
  by (simp add: preserves_def respond_def)

lemma preserves_skip: "preserves P skip"
  by (simp add: preserves_def skip_def)

lemma preserves_if:
  "(b \<Longrightarrow> preserves P m) \<Longrightarrow> (\<not> b \<Longrightarrow> preserves P n) \<Longrightarrow> preserves P (if b then m else n)"
  by simp

lemma preserves_case_list:
  "preserves P m \<Longrightarrow> (\<And>x xs. preserves P (k x xs)) \<Longrightarrow>
   preserves P (case l of [] \<Rightarrow> m | x # xs \<Rightarrow> k x xs)"
  by (cases l) simp_all

lemma preserves_try_catch:
  "preserves P body \<Longrightarrow> preserves P h \<Longrightarrow> preserves P (try_catch body h)"
  unfolding preserves_def try_catch_def
  by (auto split: prod.splits res.splits)

lemma preserves_try_catch_finally:
  "preserves P body \<Longrightarrow> preserves P h \<Longrightarrow> (\<And>c. P c \<Longrightarrow> P (final c)) \<Longrightarrow>
   preserves P (try_catch_finally body h final)"
  using preserves_try_catch[of P body h]
  unfolding preserves_def try_catch_finally_def
  by (auto split: prod.splits)

lemma conn_ok_issued [simp]: "conn_ok fk (c\<lparr>issued := n\<rparr>) = conn_ok fk c"
  by (simp add: conn_ok_def)

lemma preserves_query: "preserves (conn_ok fk) stmt \<Longrightarrow> preserves (conn_ok fk) (query f stmt)"
  by (simp add: preserves_def query_def Let_def)

lemma preserves_getClient: "preserves (conn_ok fk) (getClient f)"
  by (simp add: preserves_def getClient_def Let_def conn_ok_def)

lemma conn_ok_give_up: "conn_ok fk c \<Longrightarrow> conn_ok fk (give_up c)"
  by (simp add: give_up_def left_open_def conn_ok_def split: option.splits)

lemma conn_ok_release: "conn_ok fk c \<Longrightarrow> conn_ok fk (release c)"
  using conn_ok_give_up[of fk c] by (simp add: release_def conn_ok_def Let_def)

lemma conn_ok_cur: "conn_ok fk c \<Longrightarrow> tabs_ok fk (customers_id_seq (pool c)) (cur c)"
  by (simp add: conn_ok_def cur_def split: option.splits)

lemma conn_ok_put_cur:
  "conn_ok fk c \<Longrightarrow> tabs_ok fk (customers_id_seq (pool c)) t \<Longrightarrow> conn_ok fk (put_cur t c)"
  by (simp add: conn_ok_def put_cur_def split: option.splits)

lemma conn_ok_fk: "conn_ok fk c \<Longrightarrow> fk_enforced (pool c) = fk"
  by (simp add: conn_ok_def)

lemma preserves_BEGIN: "preserves (conn_ok fk) sql_BEGIN"
  by (simp add: preserves_def sql_BEGIN_def conn_ok_def cur_def split: option.splits)

lemma preserves_COMMIT: "preserves (conn_ok fk) sql_COMMIT"
  by (simp add: preserves_def sql_COMMIT_def conn_ok_def split: option.splits)

lemma preserves_ROLLBACK: "preserves (conn_ok fk) sql_ROLLBACK"
  by (simp add: preserves_def sql_ROLLBACK_def conn_ok_def)

lemma preserves_reads:
  "preserves (conn_ok fk) (select_duplicate fn ln ph)"
  "preserves (conn_ok fk) (select_addresses_of i)"
  "preserves (conn_ok fk) (select_customer i)"
  "preserves (conn_ok fk) select_all_customers"
  "preserves (conn_ok fk) (select_search pat)"
  "preserves (conn_ok fk) (select_customers ac q)"
  "preserves (conn_ok fk) (select_count ac q)"
  by (simp_all add: preserves_def select_duplicate_def select_addresses_of_def
        select_customer_def select_all_customers_def select_search_def select_customers_def
        select_count_def Let_def)

lemma tabs_ok_update_customers:
  assumes ok: "tabs_ok fk n t" and g: "\<And>r. c_id (g r) = c_id r"
  shows "tabs_ok fk n (t\<lparr>customers := map (\<lambda>r. if c_id r = i then g r else r) (customers t)\<rparr>)"
proof -
  define h where "h = (\<lambda>r. if c_id r = i then g r else r)"
  have hid: "c_id (h r) = c_id r" for r
    by (simp add: h_def g)
  have "tabs_ok fk n (t\<lparr>customers := map h (customers t)\<rparr>)"
    using ok by (auto simp: tabs_ok_def hid comp_def image_image)
  then show ?thesis
    by (simp add: h_def)
qed

lemma tabs_ok_delete_customer:
  assumes ok: "tabs_ok fk n t"
    and free: "fk \<Longrightarrow> i \<notin> set (map c_id (customers t)) \<or> i \<notin> set (map customer_id (addresses t))"
  shows "tabs_ok fk n (t\<lparr>customers := filter (\<lambda>r. c_id r \<noteq> i) (customers t)\<rparr>)"
proof -
  have "customer_id a \<in> c_id ` {x \<in> set (customers t). c_id x \<noteq> i}"
    if "a \<in> set (addresses t)" and fk for a
  proof -
    from ok that obtain r where r: "r \<in> set (customers t)" "c_id r = customer_id a"
      by (auto simp: tabs_ok_def)
    with free[OF \<open>fk\<close>] that have "c_id r \<noteq> i" by force
    with r show ?thesis by force
  qed
  with ok show ?thesis
    by (simp add: tabs_ok_def distinct_map_filter)
qed

lemma preserves_update_customers: "preserves (conn_ok fk) (update_customers fn ln ph i)"
  unfolding preserves_def update_customers_def Let_def
  by (auto intro!: conn_ok_put_cur tabs_ok_update_customers dest: conn_ok_cur)

lemma preserves_insert_customer: "preserves (conn_ok fk) (insert_customer fn ln ph)"
  unfolding preserves_def insert_customer_def Let_def
  by (auto simp: conn_ok_def put_cur_def cur_def tabs_ok_def less_Suc_eq split: option.splits)

lemma preserves_insert_address: "preserves (conn_ok fk) (insert_address cid ad ci st pin)"
  unfolding preserves_def insert_address_def Let_def
  by (auto simp: conn_ok_def put_cur_def cur_def tabs_ok_def split: option.splits)

lemma preserves_update_address: "preserves (conn_ok fk) (update_address ad ci st pin i)"
  unfolding preserves_def update_address_def Let_def
  by (auto simp: conn_ok_def put_cur_def cur_def tabs_ok_def split: option.splits)

lemma preserves_delete_address_row: "preserves (conn_ok fk) (delete_address_row i)"
  unfolding preserves_def delete_address_row_def Let_def
  by (auto simp: conn_ok_def put_cur_def cur_def tabs_ok_def split: option.splits)

lemma preserves_delete_addresses_of: "preserves (conn_ok fk) (delete_addresses_of i)"
  unfolding preserves_def delete_addresses_of_def Let_def
  by (auto simp: conn_ok_def put_cur_def cur_def tabs_ok_def split: option.splits)

lemma preserves_delete_customer_row: "preserves (conn_ok fk) (delete_customer_row i)"
  unfolding preserves_def delete_customer_row_def Let_def
  by (auto intro!: conn_ok_put_cur tabs_ok_delete_customer dest: conn_ok_cur conn_ok_fk)

lemmas preserves_intros = preserves_await preserves_respond preserves_skip preserves_if
  preserves_case_list preserves_try_catch preserves_try_catch_finally preserves_query
  preserves_getClient conn_ok_release preserves_BEGIN preserves_COMMIT preserves_ROLLBACK
  preserves_reads preserves_update_customers preserves_insert_customer
  preserves_insert_address preserves_update_address preserves_delete_address_row
  preserves_delete_addresses_of preserves_delete_customer_row

lemma preserves_handler: "preserves (conn_ok fk) (handler f req)"
  by (cases req)
     (auto simp: put_customer_def post_addresses_def put_address_def delete_address_def
        delete_customer_def get_search_def get_customer_def get_customers_def get_count_def
        post_customers_def get_customer_addresses_def post_customer_addresses_def Let_def
      intro!: preserves_intros)

lemma count_by_key:
  "distinct (map c_id xs) \<Longrightarrow>
   length (filter (\<lambda>r. c_id r = k) xs) = (if k \<in> set (map c_id xs) then 1 else 0)"
  by (induction xs) auto

lemma tabs_ok_iff:
  "tabs_ok (fk_enforced d) (customers_id_seq d) (tabs d) \<longleftrightarrow>
   primary_key d \<and> ids_from_seq d \<and> (fk_enforced d \<longrightarrow> belongs_to_one (tabs d))"
  by (auto simp: tabs_ok_def primary_key_def customer_ids_def ids_from_seq_def
        belongs_to_one_def count_by_key split: if_splits)

lemma serve_conn_ok:
  assumes "tabs_ok (fk_enforced d) (customers_id_seq d) (tabs d)"
  shows "fk_enforced (snd (serve f req d)) = fk_enforced d \<and>
         tabs_ok (fk_enforced (snd (serve f req d))) (customers_id_seq (snd (serve f req d)))
           (tabs (snd (serve f req d)))"
proof -
  have "conn_ok (fk_enforced d) \<lparr>pool = d, work = None, issued = 0\<rparr>"
    using assms by (simp add: conn_ok_def)
  with preserves_handler[of "fk_enforced d" f req]
  have "conn_ok (fk_enforced d) (snd (handler f req \<lparr>pool = d, work = None, issued = 0\<rparr>))"
    by (simp add: preserves_def)
  from conn_ok_give_up[OF this] show ?thesis
    by (simp add: serve_def run_def conn_ok_def case_prod_unfold)
qed

text \<open>The customer ids stay distinct and below the sequence with every request, whether
  the foreign key is enforced or not.\<close>

lemma customer_ids_stay_distinct:
  assumes "primary_key d" "ids_from_seq d" "fk_enforced d \<longrightarrow> belongs_to_one (tabs d)"
  shows "primary_key (snd (serve f req d)) \<and> ids_from_seq (snd (serve f req d))"
  using serve_conn_ok[of d f req] assms tabs_ok_iff[of d] tabs_ok_iff[of "snd (serve f req d)"]
  by blast

text \<open>
  C7, as the claim states it, fails when the store does not enforce a foreign key: the
  handlers of POST /api/addresses and POST /api/customers/:id/addresses check the presence
  of the fields only, and for the id 99, which no customer has, both insert an address
  row that belongs to no customer.
\<close>

theorem post_addresses_unknown_customer:
  "belongs_to_one (tabs shop) \<and> 99 \<notin> set (customer_ids shop) \<and>
   reply_status (fst (serve no_faults (PostAddresses (Some 99) mill_lane) shop)) = Some 201 \<and>
   \<not> belongs_to_one (tabs (snd (serve no_faults (PostAddresses (Some 99) mill_lane) shop))) \<and>
   reply_status (fst (serve no_faults (PostCustomerAddresses 99 mill_lane) shop)) = Some 201 \<and>
   \<not> belongs_to_one (tabs (snd (serve no_faults (PostCustomerAddresses 99 mill_lane) shop)))"
  by code_simp

text \<open>
  C7, amended: when the store enforces the foreign key from addresses.customer_id to
  customers.id, every request, whatever its payload and whichever call to the store fails,
  leaves a database in which every address row belongs to exactly one customer (given one
  in which this holds, with distinct customer ids handed out by the sequence).  An address
  insert for an id without customer then fails in the store and is answered with 500.
\<close>

theorem address_belongs_to_one_customer:
  "fk_enforced d \<Longrightarrow> primary_key d \<Longrightarrow> ids_from_seq d \<Longrightarrow> belongs_to_one (tabs d) \<Longrightarrow>
   fk_enforced (snd (serve f req d)) \<and> primary_key (snd (serve f req d)) \<and>
   ids_from_seq (snd (serve f req d)) \<and> belongs_to_one (tabs (snd (serve f req d)))"
  using serve_conn_ok[of d f req] tabs_ok_iff[of d] tabs_ok_iff[of "snd (serve f req d)"]
  by simp

theorem address_belongs_to_one_customer_witness:
  "fk_enforced shop_fk \<and> primary_key shop_fk \<and> ids_from_seq shop_fk \<and>
   belongs_to_one (tabs shop_fk) \<and>
   reply_status (fst (serve no_faults (PostAddresses (Some 99) mill_lane) shop_fk)) = Some 500 \<and>
   reply_status (fst (serve no_faults (PostAddresses (Some 1) mill_lane) shop_fk)) = Some 201 \<and>
   belongs_to_one (tabs (snd (serve no_faults (PostAddresses (Some 99) mill_lane) shop_fk))) \<and>
   belongs_to_one (tabs (snd (serve no_faults (PostAddresses (Some 1) mill_lane) shop_fk)))"
proof -
  have h1: "fk_enforced shop_fk" by code_simp
  have h2: "primary_key shop_fk" by code_simp
  have h3: "ids_from_seq shop_fk" by code_simp
  have h4: "belongs_to_one (tabs shop_fk)" by code_simp
  have r1: "reply_status (fst (serve no_faults (PostAddresses (Some 99) mill_lane) shop_fk)) = Some 500"
    by code_simp
  have r2: "reply_status (fst (serve no_faults (PostAddresses (Some 1) mill_lane) shop_fk)) = Some 201"
    by code_simp
  from address_belongs_to_one_customer[OF h1 h2 h3 h4, of no_faults "PostAddresses (Some 99) mill_lane"]
    address_belongs_to_one_customer[OF h1 h2 h3 h4, of no_faults "PostAddresses (Some 1) mill_lane"]
    h1 h2 h3 h4 r1 r2
  show ?thesis by simp
qed

subsection \<open>The rows of a list or search result\<close>

lemma order_by_id_desc_set [simp]: "set (order_by_id_desc rows) = set rows"
  by (simp add: order_by_id_desc_def)

lemma set_left_join:
  "set (left_join t) =
     {(c, None) | c. c \<in> set (customers t) \<and> addresses_of t (c_id c) = []} \<union>
     {(c, Some a) | c a. c \<in> set (customers t) \<and> a \<in> set (addresses_of t (c_id c))}"
proof -
  have one: "set (case filter (\<lambda>a. customer_id a = c_id c) (addresses t) of
                    [] \<Rightarrow> [(c, None)] | as \<Rightarrow> map (\<lambda>a. (c, Some a)) as) =
             (if addresses_of t (c_id c) = [] then {(c, None)}
              else {(c, Some a) | a. a \<in> set (addresses_of t (c_id c))})" for c
    by (cases "filter (\<lambda>a. customer_id a = c_id c) (addresses t)")
       (auto simp: addresses_of_def)
  show ?thesis
    unfolding left_join_def set_concat set_map image_image one
    by (auto split: if_splits)
qed

lemma search_row_out_id [simp]: "o_id (search_row_out r) = c_id (fst r)"
  by (cases r) (simp add: search_row_out_def)

text \<open>The search handler: the query without a condition for a blank term, the rejected
  query for every other term.\<close>

lemma get_search_blank:
  "\<not> f 0 \<Longrightarrow> falsy q \<or> trim (param q) = [] \<Longrightarrow>
   run (get_search f q) d =
     (Val (Reply 200 (Data (map search_row_out
        (order_by_id_desc
           (map (\<lambda>r. (r, json_agg_addresses (tabs d) r)) (customers (tabs d))))))), d)"
  by (auto simp: get_search_def step_defs select_all_customers_def Let_def trim_def)

lemma get_search_term_rejected:
  "truthy q \<Longrightarrow> trim (param q) \<noteq> [] \<Longrightarrow>
   run (get_search f q) d = (Val (Reply 500 ErrMessage), d)"
  by (simp add: get_search_def step_defs select_search_def Let_def)

lemma customers_row_out_id [simp]: "o_id (customers_row_out r) = c_id (fst r)"
  by (cases r) (simp add: customers_row_out_def)

lemma group_by_id_keys:
  "map (\<lambda>g. c_id (fst g)) (group_by_id rows) = remdups (map (\<lambda>r. c_id (fst r)) rows)"
proof -
  have "c_id (fst (hd (filter (\<lambda>r. c_id (fst r) = i) rows))) = i"
    if "i \<in> set (remdups (map (\<lambda>r. c_id (fst r)) rows))" for i
  proof -
    from that have ne: "filter (\<lambda>r. c_id (fst r) = i) rows \<noteq> []"
      by (auto simp: filter_empty_conv)
    from hd_in_set[OF ne] show ?thesis by simp
  qed
  then have "map (\<lambda>i. c_id (fst (hd (filter (\<lambda>r. c_id (fst r) = i) rows))))
          (remdups (map (\<lambda>r. c_id (fst r)) rows)) = remdups (map (\<lambda>r. c_id (fst r)) rows)"
    by (intro map_idI) simp
  then show ?thesis
    by (simp add: group_by_id_def comp_def)
qed

lemma join_all_customers:
  "(\<lambda>r. c_id (fst r)) ` set (left_join t) = c_id ` set (customers t)"
proof -
  have "fst ` set (left_join t) = set (customers t)"
  proof (intro set_eqI iffI)
    fix c assume "c \<in> fst ` set (left_join t)"
    then show "c \<in> set (customers t)" by (auto simp: set_left_join)
  next
    fix c assume c: "c \<in> set (customers t)"
    show "c \<in> fst ` set (left_join t)"
    proof (cases "addresses_of t (c_id c)")
      case Nil
      with c have "(c, None) \<in> set (left_join t)" by (simp add: set_left_join)
      then show ?thesis by force
    next
      case (Cons a as)
      with c have "(c, Some a) \<in> set (left_join t)" by (simp add: set_left_join)
      then show ?thesis by force
    qed
  qed
  then show ?thesis
    by (simp add: image_image[symmetric, of c_id fst] del: image_image)
qed

lemma get_customers_run:
  "\<not> f 0 \<Longrightarrow>
   run (get_customers f ac q) d =
     (Val (Reply 200 (Data (map customers_row_out
        (map (\<lambda>g. (fst g, count_a_id (snd g), snd g))
           (order_by_id_desc
              (filter (\<lambda>g. if ac = Some ''single'' then count_a_id (snd g) = 1
                            else if ac = Some ''multiple'' then count_a_id (snd g) > 1
                            else True)
                 (group_by_id
                    (if has_search q
                     then filter (where_search (search_pattern q)) (left_join (tabs d))
                     else left_join (tabs d))))))))),
      d)"
  by (simp add: get_customers_def step_defs select_customers_def Let_def)

text \<open>The groups of the join: under the key \<^verbatim>\<open>customers.id\<close> there is one group for each
  customer that has a row left after the search condition, with the rows of that
  customer.\<close>

lemma insort_key_map:
  "insort_key f (h x) (map h ys) = map h (insort_key (\<lambda>y. f (h y)) x ys)"
  by (induction ys) simp_all

lemma sort_key_map:
  "sort_key f (map h xs) = map h (sort_key (\<lambda>y. f (h y)) xs)"
  by (induction xs) (simp_all add: insort_key_map)

lemma order_by_id_desc_map:
  "order_by_id_desc (map (\<lambda>c. (c, g c)) cs) = map (\<lambda>c. (c, g c)) (rev (sort_key c_id cs))"
  by (simp add: order_by_id_desc_def sort_key_map rev_map)

lemma left_join_rows: "left_join t = concat (map (join_rows t) (customers t))"
  unfolding left_join_def join_rows_def[abs_def] by (rule refl)

lemma join_rows_fst: "r \<in> set (join_rows t c) \<Longrightarrow> fst r = c"
  by (auto simp: join_rows_def split: list.splits)

lemma remdups_block:
  assumes "set xs \<subseteq> {k}" "k \<notin> set ys"
  shows "remdups (xs @ ys) = (if xs = [] then remdups ys else k # remdups ys)"
  using assms
proof (induction xs)
  case Nil
  show ?case by simp
next
  case (Cons x xs)
  then have x: "x = k" and xs: "set xs \<subseteq> {k}" by auto
  show ?case
  proof (cases "xs = []")
    case True
    with Cons.prems(2) x show ?thesis by simp
  next
    case False
    with xs have "k \<in> set xs" by (cases xs) auto
    with Cons.IH[OF xs Cons.prems(2)] False x show ?thesis by simp
  qed
qed

lemma group_keys:
  fixes B :: "customer \<Rightarrow> (customer \<times> 'a) list"
  assumes "distinct (map c_id cs)" "\<And>c r. r \<in> set (B c) \<Longrightarrow> fst r = c"
  shows "remdups (map (\<lambda>r. c_id (fst r)) (concat (map B cs))) =
         map c_id (filter (\<lambda>c. B c \<noteq> []) cs)"
  using assms(1)
proof (induction cs)
  case Nil
  show ?case by simp
next
  case (Cons c cs)
  let ?k = "\<lambda>r. c_id (fst r)"
  have blk: "set (map ?k (B c)) \<subseteq> {c_id c}"
    using assms(2) by auto
  have "set (map ?k (concat (map B cs))) \<subseteq> c_id ` set cs"
    using assms(2) by auto
  with Cons.prems have fresh: "c_id c \<notin> set (map ?k (concat (map B cs)))"
    by auto
  from Cons have IH: "remdups (map ?k (concat (map B cs))) = map c_id (filter (\<lambda>c. B c \<noteq> []) cs)"
    by simp
  have "remdups (map ?k (concat (map B (c # cs)))) =
        remdups (map ?k (B c) @ map ?k (concat (map B cs)))"
    by simp
  also have "\<dots> = (if map ?k (B c) = [] then remdups (map ?k (concat (map B cs)))
                   else c_id c # remdups (map ?k (concat (map B cs))))"
    by (rule remdups_block[OF blk fresh])
  finally show ?case
    by (simp add: IH)
qed

lemma group_members:
  fixes B :: "customer \<Rightarrow> (customer \<times> 'a) list"
  assumes "distinct (map c_id cs)" "\<And>c r. r \<in> set (B c) \<Longrightarrow> fst r = c" "c \<in> set cs"
  shows "filter (\<lambda>r. c_id (fst r) = c_id c) (concat (map B cs)) = B c"
  using assms(1,3)
proof (induction cs)
  case Nil
  then show ?case by simp
next
  case (Cons x cs)
  have same: "filter (\<lambda>r. c_id (fst r) = c_id y) (B y) = B y" for y
    using assms(2) by (simp add: filter_id_conv)
  have other: "filter (\<lambda>r. c_id (fst r) = i) (B y) = []" if "c_id y \<noteq> i" for y i
    using assms(2) that by (auto simp: filter_empty_conv)
  have none: "filter (\<lambda>r. c_id (fst r) = i) (concat (map B ys)) = []"
    if "i \<notin> c_id ` set ys" for i ys
    using that assms(2) by (auto simp: filter_empty_conv)
  show ?case
  proof (cases "c = x")
    case True
    with Cons.prems have "c_id c \<notin> c_id ` set cs" by auto
    with True show ?thesis by (simp add: same none)
  next
    case False
    with Cons.prems have c: "c \<in> set cs" "c_id x \<noteq> c_id c" by auto
    with Cons show ?thesis by (simp add: other)
  qed
qed

lemma group_by_id_blocks:
  fixes B :: "customer \<Rightarrow> (customer \<times> address option) list"
  assumes "distinct (map c_id cs)" "\<And>c r. r \<in> set (B c) \<Longrightarrow> fst r = c"
  shows "group_by_id (concat (map B cs)) =
         map (\<lambda>c. (c, map snd (B c))) (filter (\<lambda>c. B c \<noteq> []) cs)"
proof -
  let ?F = "concat (map B cs)"
  have "(fst (hd (filter (\<lambda>r. c_id (fst r) = c_id c) ?F)),
         map snd (filter (\<lambda>r. c_id (fst r) = c_id c) ?F)) = (c, map snd (B c))"
    if "c \<in> set (filter (\<lambda>c. B c \<noteq> []) cs)" for c
  proof -
    from that have c: "c \<in> set cs" "B c \<noteq> []" by auto
    from hd_in_set[OF c(2)] assms(2) have "fst (hd (B c)) = c" by blast
    then show ?thesis
      by (simp add: group_members[OF assms c(1)])
  qed
  then have "map (\<lambda>c. (fst (hd (filter (\<lambda>r. c_id (fst r) = c_id c) ?F)),
                    map snd (filter (\<lambda>r. c_id (fst r) = c_id c) ?F)))
               (filter (\<lambda>c. B c \<noteq> []) cs) =
             map (\<lambda>c. (c, map snd (B c))) (filter (\<lambda>c. B c \<noteq> []) cs)"
    by (intro map_cong refl)
  moreover have "remdups (map (\<lambda>r. c_id (fst r)) ?F) = map c_id (filter (\<lambda>c. B c \<noteq> []) cs)"
    using assms by (rule group_keys)
  ultimately show ?thesis
    by (simp add: group_by_id_def comp_def)
qed

lemma filter_join_rows:
  "filter W (join_rows t c) =
     (if addresses_of t (c_id c) = [] then (if W (c, None) then [(c, None)] else [])
      else map (\<lambda>a. (c, Some a)) (filter (\<lambda>a. W (c, Some a)) (addresses_of t (c_id c))))"
  by (cases "filter (\<lambda>a. customer_id a = c_id c) (addresses t)")
     (simp_all add: join_rows_def addresses_of_def filter_map comp_def)

lemma filter_join_rows_fst: "r \<in> set (filter W (join_rows t c)) \<Longrightarrow> fst r = c"
  by (auto dest: join_rows_fst)

lemma group_by_id_join:
  assumes "distinct (map c_id (customers t))"
  shows "group_by_id (filter W (left_join t)) =
         map (\<lambda>c. (c, map snd (filter W (join_rows t c))))
             (filter (\<lambda>c. filter W (join_rows t c) \<noteq> []) (customers t))"
proof -
  have "filter W (left_join t) = concat (map (\<lambda>c. filter W (join_rows t c)) (customers t))"
    by (simp add: left_join_rows filter_concat comp_def)
  then show ?thesis
    using group_by_id_blocks[of "customers t" "\<lambda>c. filter W (join_rows t c)", OF assms
        filter_join_rows_fst]
    by simp
qed

lemma search_cond_join:
  "(if has_search q then filter (where_search (search_pattern q)) (left_join t)
    else left_join t) = filter (search_cond q) (left_join t)"
  by (cases "has_search q") (simp_all add: search_cond_def[abs_def])

lemma listed_addresses_cond:
  "filter (\<lambda>a. search_cond q (c, Some a)) (addresses_of t (c_id c)) = listed_addresses q t c"
  by (simp add: search_cond_def listed_addresses_def)

lemma count_join_rows:
  "count_a_id (map snd (filter W (join_rows t c))) =
   length (filter (\<lambda>a. W (c, Some a)) (addresses_of t (c_id c)))"
  by (simp add: filter_join_rows count_a_id_def comp_def)

lemma addresses_join_rows:
  "concat (map (\<lambda>a. case a of None \<Rightarrow> [] | Some x \<Rightarrow> [x]) (map snd (filter W (join_rows t c)))) =
   filter (\<lambda>a. W (c, Some a)) (addresses_of t (c_id c))"
  by (simp add: filter_join_rows comp_def concat_map_singleton)

lemma where_search_None: "where_search pat (c, None) \<Longrightarrow> where_search pat (c, Some a)"
  by (auto simp: where_search_def)

lemma join_rows_selected:
  "filter (search_cond q) (join_rows t c) \<noteq> [] \<longleftrightarrow> list_selects q t c"
proof (cases "has_search q")
  case False
  then show ?thesis
    by (simp add: filter_join_rows search_cond_def list_selects_def)
next
  case True
  show ?thesis
  proof (cases "addresses_of t (c_id c)")
    case Nil
    with True show ?thesis
      by (simp add: filter_join_rows search_cond_def list_selects_def customer_matches_def)
  next
    case (Cons a as)
    with True where_search_None[of "search_pattern q" c a] show ?thesis
      by (auto simp: filter_join_rows search_cond_def list_selects_def customer_matches_def
            filter_empty_conv)
  qed
qed

lemma customers_row_out_group:
  "customers_row_out (c, count_a_id (map snd (filter (search_cond q) (join_rows t c))),
                      map snd (filter (search_cond q) (join_rows t c))) = list_row q t c"
  by (simp only: customers_row_out_def list_row_def count_join_rows addresses_join_rows
        listed_addresses_cond prod.case)

text \<open>The answer of the list handler in full, when the query succeeds: one row for each
  customer that the request selects, by descending id, with the addresses that the request
  lists for the customer and their number.\<close>

lemma get_customers_exact:
  assumes "primary_key d" "\<not> f 0"
  shows "run (get_customers f ac q) d =
           (Val (Reply 200 (Data
              (map (list_row q (tabs d))
                 (rev (sort_key c_id (filter (listed ac q (tabs d)) (customers (tabs d)))))))), d)"
proof -
  let ?t = "tabs d"
  let ?B = "\<lambda>c. filter (search_cond q) (join_rows ?t c)"
  let ?P = "\<lambda>g::customer \<times> address option list.
                 if ac = Some ''single'' then count_a_id (snd g) = 1
                 else if ac = Some ''multiple'' then count_a_id (snd g) > 1
                 else True"
  let ?h = "\<lambda>c. (c, map snd (?B c))"
  from assms(1) have dist: "distinct (map c_id (customers ?t))"
    by (simp add: primary_key_def customer_ids_def)
  have groups: "group_by_id (filter (search_cond q) (left_join ?t)) =
      map ?h (filter (list_selects q ?t) (customers ?t))"
    by (simp add: group_by_id_join[OF dist] join_rows_selected)
  have kept: "filter ?P (map ?h (filter (list_selects q ?t) (customers ?t))) =
      map ?h (filter (listed ac q ?t) (customers ?t))"
  proof -
    have "filter ?P (map ?h xs) = map ?h (filter (\<lambda>c. ?P (?h c)) xs)" for xs
      by (simp add: filter_map comp_def)
    moreover have "filter (\<lambda>c. ?P (?h c)) (filter (list_selects q ?t) (customers ?t)) =
        filter (listed ac q ?t) (customers ?t)"
      unfolding filter_filter
      by (rule filter_cong) (auto simp: listed_def count_join_rows listed_addresses_cond)
    ultimately show ?thesis by simp
  qed
  have ordered: "order_by_id_desc (map ?h (filter (listed ac q ?t) (customers ?t))) =
      map ?h (rev (sort_key c_id (filter (listed ac q ?t) (customers ?t))))"
    by (rule order_by_id_desc_map)
  have rows: "map customers_row_out
         (map (\<lambda>g. (fst g, count_a_id (snd g), snd g))
            (map ?h (rev (sort_key c_id (filter (listed ac q ?t) (customers ?t)))))) =
       map (list_row q ?t) (rev (sort_key c_id (filter (listed ac q ?t) (customers ?t))))"
    by (simp add: comp_def customers_row_out_group)
  note run = get_customers_run[of f ac q d]
  show ?thesis
    unfolding run[OF assms(2)] search_cond_join groups kept ordered rows ..
qed

lemma search_row_out_row: "search_row_out (c, json_agg_addresses t c) = search_row t c"
  by (cases "filter (\<lambda>a. customer_id a = c_id c) (addresses t)")
     (simp_all add: search_row_out_def json_agg_addresses_def addresses_of_def search_row_def)

text \<open>The answer of the search handler to a blank term in full: one row for each customer,
  by descending id, with all addresses of the customer, the empty list when it has
  none.\<close>

lemma get_search_exact:
  assumes "\<not> f 0" "falsy q \<or> trim (param q) = []"
  shows "run (get_search f q) d =
           (Val (Reply 200 (Data
              (map (search_row (tabs d)) (rev (sort_key c_id (customers (tabs d))))))), d)"
proof -
  have "map search_row_out
          (order_by_id_desc
             (map (\<lambda>r. (r, json_agg_addresses (tabs d) r)) (customers (tabs d)))) =
        map (search_row (tabs d)) (rev (sort_key c_id (customers (tabs d))))"
    by (simp add: order_by_id_desc_map comp_def search_row_out_row)
  with get_search_blank[of f q d] assms show ?thesis
    by simp
qed

lemma rows_descending:
  assumes "distinct (map c_id cs)"
  shows "sorted_wrt (>) (map c_id (rev (sort_key c_id cs)))"
proof -
  let ?ys = "map c_id (sort_key c_id cs)"
  have "distinct ?ys"
    using assms by (simp add: distinct_map)
  moreover have "sorted ?ys"
    by (rule sorted_sort_key)
  ultimately have "sorted_wrt (<) ?ys"
    by (simp add: strict_sorted_iff)
  then have "sorted_wrt (>) (rev ?ys)"
    by (simp add: sorted_wrt_rev)
  then show ?thesis
    by (simp add: rev_map)
qed

lemma list_row_id [simp]: "o_id (list_row q t c) = c_id c"
  by (simp add: list_row_def)

lemma search_row_id [simp]: "o_id (search_row t c) = c_id c"
  by (simp add: search_row_def)

text \<open>One row for each customer: the ids of the rows are strictly descending, and they are
  the ids of the customers that the request selects.\<close>

lemma get_customers_rows:
  assumes "primary_key d" "\<not> f 0"
  shows "\<exists>rows. run (get_customers f ac q) d = (Val (Reply 200 (Data rows)), d) \<and>
           sorted_wrt (>) (map o_id rows) \<and>
           set (map o_id rows) =
             c_id ` {c \<in> set (customers (tabs d)). listed ac q (tabs d) c}"
proof -
  let ?cs = "filter (listed ac q (tabs d)) (customers (tabs d))"
  let ?rows = "map (list_row q (tabs d)) (rev (sort_key c_id ?cs))"
  from assms(1) have "distinct (map c_id ?cs)"
    by (simp add: primary_key_def customer_ids_def distinct_map_filter)
  from rows_descending[OF this] have "sorted_wrt (>) (map o_id ?rows)"
    by (simp add: comp_def)
  moreover have "set (map o_id ?rows) =
      c_id ` {c \<in> set (customers (tabs d)). listed ac q (tabs d) c}"
    by (simp add: image_image)
  moreover have "run (get_customers f ac q) d = (Val (Reply 200 (Data ?rows)), d)"
    using assms by (rule get_customers_exact)
  ultimately show ?thesis
    by blast
qed

lemma get_search_rows:
  assumes "primary_key d" "\<not> f 0" "falsy q \<or> trim (param q) = []"
  shows "\<exists>rows. run (get_search f q) d = (Val (Reply 200 (Data rows)), d) \<and>
           sorted_wrt (>) (map o_id rows) \<and>
           set (map o_id rows) = c_id ` set (customers (tabs d)) \<and>
           (\<forall>r \<in> set rows. o_addresses r = addresses_of (tabs d) (o_id r))"
proof -
  let ?rows = "map (search_row (tabs d)) (rev (sort_key c_id (customers (tabs d))))"
  from assms(1) have "distinct (map c_id (customers (tabs d)))"
    by (simp add: primary_key_def customer_ids_def)
  from rows_descending[OF this] have "sorted_wrt (>) (map o_id ?rows)"
    by (simp add: comp_def)
  moreover have "set (map o_id ?rows) = c_id ` set (customers (tabs d))"
    by (simp add: image_image)
  moreover have "\<forall>r \<in> set ?rows. o_addresses r = addresses_of (tabs d) (o_id r)"
    by (auto simp: search_row_def)
  moreover have "run (get_search f q) d = (Val (Reply 200 (Data ?rows)), d)"
    using assms(2,3) by (rule get_search_exact)
  ultimately show ?thesis
    by blast
qed

text \<open>A term that consists of a no-break space is blank.\<close>

lemma get_search_no_break_space:
  "map o_id (rows_of (fst (run (get_search no_faults (Some [CHR 0xA0])) shop))) = [2, 1]"
  by code_simp

text \<open>
  C8 at the search term \<^verbatim>\<open>lake\<close>: customer 1 of the sample store has two addresses, one of
  them \<^verbatim>\<open>7 Lake View\<close>, and so matches the term, but GET /api/customers/search?q=lake
  answers with status 500 and no row: for a term that is not blank the handler sends
  \<^verbatim>\<open>SELECT DISTINCT\<close> over a column of type \<^verbatim>\<open>json\<close>, which the engine rejects.  The list
  handler GET /api/customers?q=lake, which removes the repeated rows of the join with
  \<^verbatim>\<open>GROUP BY c.id\<close>, answers the same term with one row for customer 1; the row nests the
  address that matches the term and not the other address of the customer.
\<close>

theorem search_with_term_rejected:
  "\<lparr>c_id = 1, first_name = ''Asha'', last_name = ''Rao'', phone_number = ''9876543210''\<rparr>
     \<in> set (customers (tabs shop)) \<and>
   customer_matches ''%lake%'' (tabs shop)
     \<lparr>c_id = 1, first_name = ''Asha'', last_name = ''Rao'', phone_number = ''9876543210''\<rparr> \<and>
   length (addresses_of (tabs shop) 1) = 2 \<and>
   run (get_search no_faults (Some ''lake'')) shop = (Val (Reply 500 ErrMessage), shop) \<and>
   run (get_customers no_faults None (Some ''lake'')) shop =
     (Val (Reply 200 (Data
        [\<lparr>o_id = 1, o_first_name = ''Asha'', o_last_name = ''Rao'',
          o_phone_number = ''9876543210'', o_address_count = Some 1,
          o_addresses =
            [\<lparr>a_id = 2, customer_id = 1, address_details = ''7 Lake View'', city = ''Delhi'',
              state = ''DL'', pin_code = ''110001''\<rparr>]\<rparr>])), shop)"
  by code_simp

subsection \<open>Counting and listing\<close>

text \<open>For \<^verbatim>\<open>addressCount\<close> absent, empty, \<^verbatim>\<open>single\<close> or \<^verbatim>\<open>multiple\<close> the count is the
  number of rows of the list, with every search term.\<close>

lemma get_count_run:
  "\<not> f 0 \<Longrightarrow>
   run (get_count f ac q) d =
     (Val (Reply 200 (Count
        (let filtered = (if has_search q
                         then filter (where_search (search_pattern q)) (left_join (tabs d))
                         else left_join (tabs d))
         in if ac = Some ''single''
              then length (filter (\<lambda>g. count_a_id (snd g) = 1)
                             (group_by_id (filter (\<lambda>r. snd r \<noteq> None) filtered)))
            else if ac = Some ''multiple''
              then length (filter (\<lambda>g. count_a_id (snd g) > 1)
                             (group_by_id (filter (\<lambda>r. snd r \<noteq> None) filtered)))
            else if falsy ac then length (group_by_id filtered)
            else length filtered))), d)"
  by (simp add: get_count_def step_defs select_count_def Let_def)

lemma groups_with_addresses:
  fixes F :: "(customer \<times> address option) list"
  assumes P0: "\<not> P 0"
  shows "length (filter (\<lambda>g. P (count_a_id (snd g))) (group_by_id F)) =
         length (filter (\<lambda>g. P (count_a_id (snd g)))
                   (group_by_id (filter (\<lambda>r. snd r \<noteq> None) F)))"
proof -
  let ?key = "\<lambda>r::customer \<times> address option. c_id (fst r)"
  let ?nn = "\<lambda>r::customer \<times> address option. snd r \<noteq> None"
  define cnt where "cnt = (\<lambda>i. length (filter ?nn (filter (\<lambda>r. ?key r = i) F)))"
  have group: "length (filter (\<lambda>g. P (count_a_id (snd g))) (group_by_id G)) =
      length (filter (\<lambda>i. P (length (filter ?nn (filter (\<lambda>r. ?key r = i) G))))
                (remdups (map ?key G)))" for G :: "(customer \<times> address option) list"
    by (simp add: group_by_id_def filter_map comp_def count_a_id_def)
  have same: "filter ?nn (filter (\<lambda>r. ?key r = i) (filter ?nn F)) =
              filter ?nn (filter (\<lambda>r. ?key r = i) F)" for i
    by (induction F) auto
  have sets: "set (filter (\<lambda>i. P (cnt i)) (remdups (map ?key F))) =
              set (filter (\<lambda>i. P (cnt i)) (remdups (map ?key (filter ?nn F))))"
  proof (intro set_eqI iffI)
    fix i assume "i \<in> set (filter (\<lambda>i. P (cnt i)) (remdups (map ?key F)))"
    then have p: "P (cnt i)" by simp
    with P0 have "cnt i \<noteq> 0" by metis
    then obtain r where "r \<in> set F" "?key r = i" "?nn r"
      by (auto simp: cnt_def filter_empty_conv)
    then have "i \<in> set (map ?key (filter ?nn F))" by force
    with p show "i \<in> set (filter (\<lambda>i. P (cnt i)) (remdups (map ?key (filter ?nn F))))"
      by simp
  next
    fix i assume "i \<in> set (filter (\<lambda>i. P (cnt i)) (remdups (map ?key (filter ?nn F))))"
    then show "i \<in> set (filter (\<lambda>i. P (cnt i)) (remdups (map ?key F)))" by auto
  qed
  have len: "length xs = card (set xs)" if "distinct xs" for xs :: "nat list"
    using that by (simp add: distinct_card)
  have "length (filter (\<lambda>i. P (cnt i)) (remdups (map ?key F))) =
        length (filter (\<lambda>i. P (cnt i)) (remdups (map ?key (filter ?nn F))))"
    by (simp only: len[OF distinct_filter[OF distinct_remdups]] sets)
  then show ?thesis
    unfolding group[of F] group[of "filter ?nn F"] same cnt_def .
qed

lemma count_agrees_with_list:
  assumes "ac = None \<or> ac = Some [] \<or> ac = Some ''single'' \<or> ac = Some ''multiple''"
    and "\<not> f 0"
  shows "\<exists>rows. run (get_customers f ac q) d = (Val (Reply 200 (Data rows)), d) \<and>
                run (get_count f ac q) d = (Val (Reply 200 (Count (length rows))), d)"
proof -
  have one: "\<not> (\<lambda>n::nat. n = 1) 0" and many: "\<not> (\<lambda>n::nat. n > 1) 0" by simp_all
  let ?J = "left_join (tabs d)"
  let ?W = "filter (where_search (search_pattern q)) (left_join (tabs d))"
  note g1 = groups_with_addresses[of "\<lambda>n. n = 1", OF one]
  note g2 = groups_with_addresses[of "\<lambda>n. n > 1", OF many]
  from assms(1) consider "ac = None" | "ac = Some []" | "ac = Some ''single''"
    | "ac = Some ''multiple''" by blast
  then show ?thesis
  proof cases
    case 1
    with assms(2) show ?thesis
      by (simp add: get_customers_run get_count_run order_by_id_desc_def Let_def truthy_def)
  next
    case 2
    with assms(2) show ?thesis
      by (simp add: get_customers_run get_count_run order_by_id_desc_def Let_def truthy_def)
  next
    case 3
    with assms(2) g1[of ?J] g1[of ?W] show ?thesis
      by (simp add: get_customers_run get_count_run order_by_id_desc_def Let_def)
  next
    case 4
    with assms(2) g2[of ?J] g2[of ?W] show ?thesis
      by (simp add: get_customers_run get_count_run order_by_id_desc_def Let_def)
  qed
qed


text \<open>
  C4 at \<^verbatim>\<open>addressCount=all\<close>: the list handler treats a value other than \<^verbatim>\<open>single\<close> and
  \<^verbatim>\<open>multiple\<close> as no filter and groups by customer; the count handler appends
  \<^verbatim>\<open>GROUP BY c.id\<close> only when \<^verbatim>\<open>addressCount\<close> is falsy, so here it counts the rows of the
  join.  With one customer of two addresses and one customer without address the list has
  2 rows and the count is 3.
\<close>

theorem count_without_group_by:
  "fst (run (get_count no_faults (Some ''all'') None) shop) = Val (Reply 200 (Count 3)) \<and>
   map o_id (rows_of (fst (run (get_customers no_faults (Some ''all'') None) shop))) = [2, 1]"
  by code_simp

text \<open>Without a search term \<^verbatim>\<open>addressCount=single\<close> returns the customers with exactly
  one address, and \<^verbatim>\<open>addressCount=multiple\<close> returns only customers with two addresses or
  more, with every search term.\<close>

lemma group_by_id_count:
  assumes "g \<in> set (group_by_id F)"
  shows "count_a_id (snd g) =
         length (filter (\<lambda>r. c_id (fst r) = c_id (fst g) \<and> snd r \<noteq> None) F)"
proof -
  from assms obtain i where i: "i \<in> set (map (\<lambda>r. c_id (fst r)) F)"
    and g: "g = (fst (hd (filter (\<lambda>r. c_id (fst r) = i) F)),
                 map snd (filter (\<lambda>r. c_id (fst r) = i) F))"
    by (auto simp: group_by_id_def)
  from i have ne: "filter (\<lambda>r. c_id (fst r) = i) F \<noteq> []"
    by (auto simp: filter_empty_conv)
  from hd_in_set[OF ne] have "c_id (fst g) = i"
    by (simp add: g)
  moreover have "length (filter (\<lambda>a. a \<noteq> None) (map snd G)) =
                 length (filter (\<lambda>r. snd r \<noteq> None) G)"
    for G :: "(customer \<times> address option) list"
    by (induction G) auto
  ultimately show ?thesis
    by (simp add: g count_a_id_def del: not_None_eq)
qed

lemma joined_addresses_of:
  assumes "distinct (map c_id (customers t))"
  shows "length (filter (\<lambda>r. c_id (fst r) = i \<and> snd r \<noteq> None) (left_join t)) =
         (if i \<in> set (map c_id (customers t)) then length (addresses_of t i) else 0)"
proof -
  let ?R = "\<lambda>c. case filter (\<lambda>a. customer_id a = c_id c) (addresses t) of
                   [] \<Rightarrow> [(c, None)] | as \<Rightarrow> map (\<lambda>a. (c, Some a)) as"
  let ?Q = "\<lambda>r::customer \<times> address option. c_id (fst r) = i \<and> snd r \<noteq> None"
  have one: "length (filter ?Q (?R c)) = (if c_id c = i then length (addresses_of t i) else 0)"
    for c
    by (cases "filter (\<lambda>a. customer_id a = c_id c) (addresses t)")
       (auto simp: addresses_of_def filter_map comp_def)
  have "distinct (map c_id cs) \<Longrightarrow>
        length (filter ?Q (concat (map ?R cs))) =
        (if i \<in> set (map c_id cs) then length (addresses_of t i) else 0)" for cs
  proof (induction cs)
    case Nil
    show ?case by simp
  next
    case (Cons c cs)
    from Cons.prems have d: "distinct (map c_id cs)" and nin: "c_id c \<notin> set (map c_id cs)"
      by simp_all
    have "length (filter ?Q (concat (map ?R (c # cs)))) =
          length (filter ?Q (?R c)) + length (filter ?Q (concat (map ?R cs)))"
      by simp
    also have "\<dots> = (if c_id c = i then length (addresses_of t i) else 0) +
                     (if i \<in> set (map c_id cs) then length (addresses_of t i) else 0)"
      by (simp only: one Cons.IH[OF d])
    also have "\<dots> = (if i \<in> set (map c_id (c # cs)) then length (addresses_of t i) else 0)"
      using nin by auto
    finally show ?case .
  qed
  from this[OF assms] show ?thesis
    by (simp only: left_join_def)
qed


lemma joined_group_count:
  assumes pk: "primary_key d" and g: "g \<in> set (group_by_id (left_join (tabs d)))"
  shows "count_a_id (snd g) = length (addresses_of (tabs d) (c_id (fst g)))"
proof -
  have "c_id (fst g) \<in> (\<lambda>g. c_id (fst g)) ` set (group_by_id (left_join (tabs d)))"
    using g by blast
  also have "\<dots> = set (map c_id (customers (tabs d)))"
    using arg_cong[OF group_by_id_keys[of "left_join (tabs d)"], of set]
    by (simp add: join_all_customers)
  finally have "c_id (fst g) \<in> set (map c_id (customers (tabs d)))" .
  with joined_addresses_of[of "tabs d" "c_id (fst g)"] pk group_by_id_count[OF g]
  show ?thesis
    by (simp add: primary_key_def customer_ids_def del: not_None_eq)
qed

lemma single_without_search:
  assumes "primary_key d" "\<not> f 0" "\<not> has_search q"
  shows "\<exists>rows. run (get_customers f (Some ''single'') q) d = (Val (Reply 200 (Data rows)), d) \<and>
           set (map o_id rows) =
             {i \<in> set (customer_ids d). length (addresses_of (tabs d) i) = 1}"
proof -
  let ?J = "left_join (tabs d)"
  let ?kept = "filter (\<lambda>g. count_a_id (snd g) = 1) (group_by_id ?J)"
  let ?rows = "map customers_row_out
                 (map (\<lambda>g. (fst g, count_a_id (snd g), snd g)) (order_by_id_desc ?kept))"
  have run: "run (get_customers f (Some ''single'') q) d = (Val (Reply 200 (Data ?rows)), d)"
    using get_customers_run[of f "Some ''single''" q d] assms(2,3) by simp
  have keys: "(\<lambda>g. c_id (fst g)) ` set (group_by_id ?J) = set (customer_ids d)"
    using arg_cong[OF group_by_id_keys[of ?J], of set]
    by (simp add: join_all_customers customer_ids_def)
  have "set (map o_id ?rows) = (\<lambda>g. c_id (fst g)) ` set ?kept"
    by (simp add: image_image)
  also have "\<dots> = (\<lambda>g. c_id (fst g)) `
      {g \<in> set (group_by_id ?J). length (addresses_of (tabs d) (c_id (fst g))) = 1}"
    using joined_group_count[OF assms(1)] by auto
  also have "\<dots> = {i \<in> (\<lambda>g. c_id (fst g)) ` set (group_by_id ?J).
                    length (addresses_of (tabs d) i) = 1}"
    by blast
  finally have "set (map o_id ?rows) =
      {i \<in> set (customer_ids d). length (addresses_of (tabs d) i) = 1}"
    by (simp only: keys)
  with run show ?thesis by blast
qed

lemma multiple_at_least_two:
  assumes "primary_key d" "\<not> f 0"
  shows "\<exists>rows. run (get_customers f (Some ''multiple'') q) d =
                  (Val (Reply 200 (Data rows)), d) \<and>
           (\<forall>r \<in> set rows. 2 \<le> length (addresses_of (tabs d) (o_id r)))"
proof -
  let ?J = "left_join (tabs d)"
  let ?F = "if has_search q then filter (where_search (search_pattern q)) ?J else ?J"
  let ?kept = "filter (\<lambda>g. count_a_id (snd g) > 1) (group_by_id ?F)"
  let ?rows = "map customers_row_out
                 (map (\<lambda>g. (fst g, count_a_id (snd g), snd g)) (order_by_id_desc ?kept))"
  have run: "run (get_customers f (Some ''multiple'') q) d = (Val (Reply 200 (Data ?rows)), d)"
    using get_customers_run[of f "Some ''multiple''" q d] assms(2) by simp
  have le: "length (filter Q ?F) \<le> length (filter Q ?J)" for Q
  proof (cases "has_search q")
    case True
    have "filter Q (filter (where_search (search_pattern q)) ?J) =
          filter (where_search (search_pattern q)) (filter Q ?J)"
      by (simp add: conj_commute)
    with True show ?thesis by (simp only: if_True length_filter_le)
  next
    case False
    then show ?thesis by simp
  qed
  have "2 \<le> length (addresses_of (tabs d) (c_id (fst g)))" if g: "g \<in> set ?kept" for g
  proof -
    let ?Q = "\<lambda>r::customer \<times> address option. c_id (fst r) = c_id (fst g) \<and> snd r \<noteq> None"
    from g have "g \<in> set (group_by_id ?F)" and big: "1 < count_a_id (snd g)" by simp_all
    from group_by_id_count[OF this(1)] big have "1 < length (filter ?Q ?F)" by simp
    with le[of ?Q] have many: "1 < length (filter ?Q ?J)" by linarith
    with joined_addresses_of[of "tabs d" "c_id (fst g)"] assms(1) show ?thesis
      by (simp add: primary_key_def customer_ids_def del: not_None_eq split: if_splits)
  qed
  then have "\<forall>r \<in> set ?rows. 2 \<le> length (addresses_of (tabs d) (o_id r))"
    by auto
  with run show ?thesis by blast
qed

text \<open>
  C5 at \<^verbatim>\<open>addressCount=single\<close> with a search term: the WHERE clause removes the joined rows
  that do not match before they are grouped, so \<^verbatim>\<open>COUNT(a.id)\<close> counts the matching
  addresses only.  Customer 1 has two addresses, one of them in Pune; the search for
  ``pune'' with \<^verbatim>\<open>addressCount=single\<close> returns customer 1.
\<close>

theorem single_with_search_term:
  "map o_id (rows_of (fst (run (get_customers no_faults (Some ''single'') (Some ''pune'')) shop)))
     = [1] \<and>
   length (addresses_of (tabs shop) 1) = 2"
  by code_simp

end
